theory Spec2Isabelle
  imports Complex_Main "HOL-Library.Word"
begin

section \<open>JavaScript numbers\<close>

text \<open>
  The program is TypeScript; every \<^verbatim>\<open>number\<close> is an IEEE double. A double is modelled
  as a real number or one of the three non-finite values, so that a division by zero is
  a value of the model (as it is in JavaScript) and not the arbitrary \<open>x / 0 = 0\<close> of
  HOL. Rounding of finite results and the sign of zero are not modelled, but for the
  index of a bin in the Vue spectrogram, where the rounding decides which bin a row
  reads (\<open>to_double\<close> below).
\<close>

datatype jsnum = Fin real | PInf | NInf | NaN

fun is_fin :: "jsnum \<Rightarrow> bool" where
  "is_fin (Fin x) = True"
| "is_fin _ = False"

text \<open>The sign of a number that is not NaN: \<open>-1\<close>, \<open>0\<close> or \<open>1\<close>.\<close>

fun js_sgn :: "jsnum \<Rightarrow> int" where
  "js_sgn (Fin x) = (if x < 0 then -1 else if x = 0 then 0 else 1)"
| "js_sgn PInf = 1"
| "js_sgn NInf = -1"
| "js_sgn NaN = 0"

definition inf_of_sign :: "int \<Rightarrow> jsnum" where
  "inf_of_sign s = (if s = 0 then NaN else if 0 < s then PInf else NInf)"

fun js_neg :: "jsnum \<Rightarrow> jsnum" where
  "js_neg (Fin x) = Fin (- x)"
| "js_neg PInf = NInf"
| "js_neg NInf = PInf"
| "js_neg NaN = NaN"

fun js_add :: "jsnum \<Rightarrow> jsnum \<Rightarrow> jsnum" where
  "js_add (Fin x) (Fin y) = Fin (x + y)"
| "js_add NaN b = NaN"
| "js_add a NaN = NaN"
| "js_add PInf NInf = NaN"
| "js_add NInf PInf = NaN"
| "js_add PInf b = PInf"
| "js_add NInf b = NInf"
| "js_add a PInf = PInf"
| "js_add a NInf = NInf"

definition js_sub :: "jsnum \<Rightarrow> jsnum \<Rightarrow> jsnum" where
  "js_sub a b = js_add a (js_neg b)"

fun js_mul :: "jsnum \<Rightarrow> jsnum \<Rightarrow> jsnum" where
  "js_mul (Fin x) (Fin y) = Fin (x * y)"
| "js_mul NaN b = NaN"
| "js_mul a NaN = NaN"
| "js_mul a b = inf_of_sign (js_sgn a * js_sgn b)"

text \<open>
  Division: a finite number divided by zero is an infinity of the sign of the numerator,
  and \<open>0 / 0\<close> is NaN; a finite number divided by an infinity is zero; an infinity
  divided by an infinity is NaN.
\<close>

fun js_div :: "jsnum \<Rightarrow> jsnum \<Rightarrow> jsnum" where
  "js_div (Fin x) (Fin y) = (if y = 0 then inf_of_sign (js_sgn (Fin x)) else Fin (x / y))"
| "js_div NaN b = NaN"
| "js_div a NaN = NaN"
| "js_div (Fin x) b = Fin 0"
| "js_div a (Fin y) = inf_of_sign (js_sgn a * (if y < 0 then -1 else 1))"
| "js_div a b = NaN"

text \<open>The comparisons \<^verbatim>\<open><\<close> and \<^verbatim>\<open>>\<close>: false as soon as one side is NaN.\<close>

fun js_lt :: "jsnum \<Rightarrow> jsnum \<Rightarrow> bool" where
  "js_lt (Fin x) (Fin y) = (x < y)"
| "js_lt NaN b = False"
| "js_lt a NaN = False"
| "js_lt NInf b = (b \<noteq> NInf)"
| "js_lt a PInf = (a \<noteq> PInf)"
| "js_lt a b = False"

definition js_gt :: "jsnum \<Rightarrow> jsnum \<Rightarrow> bool" where
  "js_gt a b = js_lt b a"

text \<open>\<^verbatim>\<open>Math.max\<close> and \<^verbatim>\<open>Math.min\<close> of two numbers: NaN as soon as one is NaN.\<close>

definition js_max :: "jsnum \<Rightarrow> jsnum \<Rightarrow> jsnum" where
  "js_max a b = (if a = NaN \<or> b = NaN then NaN else if js_lt a b then b else a)"

definition js_min :: "jsnum \<Rightarrow> jsnum \<Rightarrow> jsnum" where
  "js_min a b = (if a = NaN \<or> b = NaN then NaN else if js_lt b a then b else a)"

fun js_floor :: "jsnum \<Rightarrow> jsnum" where
  "js_floor (Fin x) = Fin (of_int \<lfloor>x\<rfloor>)"
| "js_floor a = a"

fun js_sqrt :: "jsnum \<Rightarrow> jsnum" where
  "js_sqrt (Fin x) = (if x < 0 then NaN else Fin (sqrt x))"
| "js_sqrt PInf = PInf"
| "js_sqrt a = NaN"

fun js_log10 :: "jsnum \<Rightarrow> jsnum" where
  "js_log10 (Fin x) = (if x < 0 then NaN else if x = 0 then NInf else Fin (log 10 x))"
| "js_log10 PInf = PInf"
| "js_log10 a = NaN"

text \<open>
  Reading an array past its end gives \<^verbatim>\<open>undefined\<close>, which arithmetic turns into NaN.
\<close>

definition js_nth :: "jsnum list \<Rightarrow> nat \<Rightarrow> jsnum" where
  "js_nth xs i = (if i < length xs then xs ! i else NaN)"

text \<open>\<^verbatim>\<open>Math.max(...xs, c)\<close>: the maximum of the elements and of \<open>c\<close>.\<close>

definition js_max_list :: "jsnum list \<Rightarrow> jsnum \<Rightarrow> jsnum" where
  "js_max_list xs c = foldr js_max xs c"

type_synonym frame = "jsnum list"

section \<open>History buffer\<close>

text \<open>
  \<^verbatim>\<open>fftHistory.push([...magnitudes]); if (fftHistory.length > MAX_HISTORY) fftHistory.shift();\<close>
  (AudioAnalyzer.vue \<^verbatim>\<open>processAudioData\<close>, main.ts, and \<^verbatim>\<open>processFFTData\<close> of the
  simulated analyzer). The capacity is a parameter; the source's constant is 200.
\<close>

definition MAX_HISTORY :: nat where
  "MAX_HISTORY = 200"

definition history_push :: "nat \<Rightarrow> 'a list \<Rightarrow> 'a \<Rightarrow> 'a list" where
  "history_push cap fftHistory magnitudes =
     (let h = fftHistory @ [magnitudes]
      in if length h > cap then tl h else h)"

text \<open>Pushing a sequence of frames, one per tick.\<close>

definition history_push_all :: "nat \<Rightarrow> 'a list \<Rightarrow> 'a list \<Rightarrow> 'a list" where
  "history_push_all cap fftHistory frames = foldl (history_push cap) fftHistory frames"

section \<open>The canvas\<close>

text \<open>
  A colour or fill style as the program builds it. A colour string with a number that
  is not finite in it (\<^verbatim>\<open>rgb(255, 0, NaN)\<close>) is not a colour, and assigning it to
  \<^verbatim>\<open>fillStyle\<close> leaves the style as it was.
\<close>

datatype style =
    Hsl jsnum
  | Rgb jsnum jsnum jsnum
  | Rgba nat nat nat real
  | White
  | LinearGradient jsnum "(real \<times> style) list"

fun valid_style :: "style \<Rightarrow> bool" where
  "valid_style (Hsl h) = is_fin h"
| "valid_style (Rgb r g b) = (is_fin r \<and> is_fin g \<and> is_fin b)"
| "valid_style _ = True"

text \<open>
  The calls made on the 2D context. Every renderer clears the whole canvas first, so the
  pixels on the canvas are those painted by the calls made since the last clear: the
  raster is modelled as that list of calls, each with the style in force.
\<close>

datatype cmd =
    FillRect style jsnum jsnum jsnum jsnum
  | BeginPath
  | MoveTo jsnum jsnum
  | LineTo jsnum jsnum
  | ClosePath
  | Arc jsnum jsnum
  | Stroke style nat
  | Fill style

record canvas =
  canvas_width :: nat
  canvas_height :: nat
  fillStyle :: style
  raster :: "cmd list"

definition clearRect :: "'a canvas_scheme \<Rightarrow> 'a canvas_scheme" where
  "clearRect c = c\<lparr>raster := []\<rparr>"

definition set_fillStyle :: "style \<Rightarrow> 'a canvas_scheme \<Rightarrow> 'a canvas_scheme" where
  "set_fillStyle st c = (if valid_style st then c\<lparr>fillStyle := st\<rparr> else c)"

definition emit :: "cmd \<Rightarrow> 'a canvas_scheme \<Rightarrow> 'a canvas_scheme" where
  "emit k c = c\<lparr>raster := raster c @ [k]\<rparr>"

definition fillRect :: "jsnum \<Rightarrow> jsnum \<Rightarrow> jsnum \<Rightarrow> jsnum \<Rightarrow> 'a canvas_scheme \<Rightarrow> 'a canvas_scheme" where
  "fillRect x y w h c = emit (FillRect (fillStyle c) x y w h) c"

definition fill :: "'a canvas_scheme \<Rightarrow> 'a canvas_scheme" where
  "fill c = emit (Fill (fillStyle c)) c"

text \<open>A natural number (an index, a length, a canvas dimension) as a number.\<close>

definition num :: "nat \<Rightarrow> jsnum" where
  "num n = Fin (real n)"

section \<open>Peak tracker\<close>

definition PEAK_HOLD_TIME :: nat where
  "PEAK_HOLD_TIME = 30"

definition PEAK_FALL_SPEED :: jsnum where
  "PEAK_FALL_SPEED = Fin (8 / 10)"

text \<open>
  The update of one bin's peak and hold counter (SpectrumBars.vue and SpectrumLine.vue,
  the same text in both):
  \<^verbatim>\<open>
  if (barHeight > peakValues[i]) { peakValues[i] = barHeight; peakHoldFrames[i] = PEAK_HOLD_TIME; }
  else { if (peakHoldFrames[i] > 0) { peakHoldFrames[i]--; } else { peakValues[i] *= PEAK_FALL_SPEED; } }
  \<close>
  The hold counter only ever holds 0, 30 or a value counted down from 30, so it is a
  natural number.
\<close>

definition peak_update :: "jsnum \<Rightarrow> jsnum \<times> nat \<Rightarrow> jsnum \<times> nat" where
  "peak_update barHeight ph =
     (if js_gt barHeight (fst ph) then (barHeight, PEAK_HOLD_TIME)
      else if snd ph > 0 then (fst ph, snd ph - 1)
      else (js_mul (fst ph) PEAK_FALL_SPEED, snd ph))"

text \<open>The tracker of one bin run over a sequence of heights, one per tick.\<close>

definition peak_run :: "jsnum list \<Rightarrow> jsnum \<times> nat \<Rightarrow> jsnum \<times> nat" where
  "peak_run hs ph = fold peak_update hs ph"

section \<open>The Vue renderers SpectrumBars and SpectrumLine\<close>

record options =
  logScale :: bool
  showPeaks :: bool

text \<open>
  The state of a component instance: its canvas (absent until the component is mounted
  and a 2D context obtained), and the two per-bin arrays.
\<close>

record vis_state = canvas +
  has_canvas :: bool
  peakValues :: "jsnum list"
  peakHoldFrames :: "nat list"

text \<open>
  \<^verbatim>\<open>if (peakValues.length !== dataLength) { peakValues = new Array(dataLength).fill(0); ... }\<close>
\<close>

definition init_peaks :: "nat \<Rightarrow> vis_state \<Rightarrow> vis_state" where
  "init_peaks dataLength s =
     (if length (peakValues s) \<noteq> dataLength
      then s\<lparr>peakValues := replicate dataLength (Fin 0),
             peakHoldFrames := replicate dataLength 0\<rparr>
      else s)"

text \<open>
  The peak block of the loop body for bin \<open>i\<close>. After \<open>init_peaks\<close> both arrays have
  \<open>dataLength\<close> entries and \<open>i < dataLength\<close>, so the reads and writes are in range.
\<close>

definition track_peak :: "nat \<Rightarrow> jsnum \<Rightarrow> vis_state \<Rightarrow> vis_state" where
  "track_peak i barHeight s =
     (let ph = peak_update barHeight (peakValues s ! i, peakHoldFrames s ! i)
      in s\<lparr>peakValues := (peakValues s)[i := fst ph],
            peakHoldFrames := (peakHoldFrames s)[i := snd ph]\<rparr>)"

text \<open>The body of the loop of \<^verbatim>\<open>draw\<close> in SpectrumBars.vue, for bin \<open>i\<close>.\<close>

definition bars_bin ::
  "frame \<Rightarrow> options \<Rightarrow> jsnum \<Rightarrow> jsnum \<Rightarrow> nat \<Rightarrow> vis_state \<Rightarrow> vis_state" where
  "bars_bin fftData opts height maxValue i s =
     (let dataLength = length fftData;
          barWidth = js_div (num (canvas_width s)) (num dataLength);
          barSpacing = js_max (Fin 0) (js_mul barWidth (Fin (1 / 10)));
          actualBarWidth = js_sub barWidth barSpacing;
          value = js_nth fftData i;
          normalizedValue = js_div value maxValue;
          barHeight = js_mul normalizedValue height;
          x = js_mul (num i) barWidth;
          y = js_sub height barHeight;
          hue = js_mul (js_div (num i) (num dataLength)) (Fin 240);
          s1 = fillRect (js_add x (js_div barSpacing (Fin 2))) y actualBarWidth barHeight
                 (set_fillStyle (Hsl hue) s)
      in if showPeaks opts then
           (let s2 = track_peak i barHeight s1;
                peakY = js_sub height (peakValues s2 ! i)
            in fillRect (js_add x (js_div barSpacing (Fin 2))) peakY actualBarWidth (Fin 2)
                 (set_fillStyle (Rgba 255 255 255 (8 / 10)) s2))
         else s1)"

text \<open>\<^verbatim>\<open>draw\<close> of SpectrumBars.vue.\<close>

definition bars_draw :: "frame \<Rightarrow> options \<Rightarrow> vis_state \<Rightarrow> vis_state" where
  "bars_draw fftData opts s =
     (if \<not> has_canvas s \<or> length fftData = 0 then s
      else
        (let height = num (canvas_height s);
             dataLength = length fftData;
             s1 = init_peaks dataLength (clearRect s);
             maxValue = js_max_list fftData (Fin 1)
         in fold (bars_bin fftData opts height maxValue) [0..<dataLength] s1))"

text \<open>The first loop of \<^verbatim>\<open>draw\<close> in SpectrumLine.vue, for bin \<open>i\<close>.\<close>

definition line_bin ::
  "frame \<Rightarrow> options \<Rightarrow> jsnum \<Rightarrow> jsnum \<Rightarrow> jsnum \<Rightarrow> nat \<Rightarrow> vis_state \<Rightarrow> vis_state" where
  "line_bin fftData opts height maxValue pointSpacing i s =
     (let value = js_nth fftData i;
          normalizedValue = js_div value maxValue;
          y = js_sub height (js_mul normalizedValue height);
          x = js_mul (num i) pointSpacing;
          s1 = (if i = 0 then emit (MoveTo x y) s else emit (LineTo x y) s)
      in if showPeaks opts then
           (let barHeight = js_mul normalizedValue height
            in track_peak i barHeight s1)
         else s1)"

text \<open>The second loop, which draws the line of the peaks.\<close>

definition line_peak_bin :: "jsnum \<Rightarrow> jsnum \<Rightarrow> nat \<Rightarrow> vis_state \<Rightarrow> vis_state" where
  "line_peak_bin height pointSpacing i s =
     (let x = js_mul (num i) pointSpacing;
          y = js_sub height (peakValues s ! i)
      in if i = 0 then emit (MoveTo x y) s else emit (LineTo x y) s)"

text \<open>
  The spacing of the points: \<^verbatim>\<open>const pointSpacing = width / (dataLength - 1);\<close>
\<close>

definition line_pointSpacing :: "nat \<Rightarrow> nat \<Rightarrow> jsnum" where
  "line_pointSpacing width dataLength = js_div (num width) (js_sub (num dataLength) (Fin 1))"

text \<open>\<^verbatim>\<open>draw\<close> of SpectrumLine.vue.\<close>

definition line_draw :: "frame \<Rightarrow> options \<Rightarrow> vis_state \<Rightarrow> vis_state" where
  "line_draw fftData opts s =
     (if \<not> has_canvas s \<or> length fftData = 0 then s
      else
        (let width = num (canvas_width s);
             height = num (canvas_height s);
             dataLength = length fftData;
             pointSpacing = line_pointSpacing (canvas_width s) dataLength;
             s1 = init_peaks dataLength (clearRect s);
             maxValue = js_max_list fftData (Fin 1);
             s2 = emit BeginPath s1;
             s3 = fold (line_bin fftData opts height maxValue pointSpacing) [0..<dataLength] s2;
             s4 = emit (Stroke (Hsl (Fin 180)) 2) s3;
             s5 = (if showPeaks opts
                   then emit (Stroke (Rgba 255 255 255 (5 / 10)) 1)
                          (fold (line_peak_bin height pointSpacing) [0..<dataLength]
                             (emit BeginPath s4))
                   else s4);
             gradient = LinearGradient height
                          [(0, Rgba 0 255 255 (5 / 10)), (1, Rgba 0 255 255 0)];
             s6 = emit ClosePath (emit (LineTo (Fin 0) height) (emit (LineTo width height) s5))
         in fill (set_fillStyle gradient s6)))"

section \<open>Colour mapping\<close>

text \<open>
  \<^verbatim>\<open>getColor(magnitude, max)\<close> of main.ts and of the simulated analyzer (the same text in
  both). The result is the string \<^verbatim>\<open>rgb(r, g, b)\<close>, modelled by its three numbers.
\<close>

definition getColor :: "jsnum \<Rightarrow> jsnum \<Rightarrow> style" where
  "getColor magnitude mx =
     (let ratio = js_min (Fin 1) (js_max (Fin 0) (js_div magnitude mx))
      in if js_lt ratio (Fin (2 / 10)) then
           Rgb (Fin 0) (js_floor (js_mul (Fin 255) (js_div ratio (Fin (2 / 10))))) (Fin 255)
         else if js_lt ratio (Fin (4 / 10)) then
           Rgb (Fin 0) (Fin 255)
             (js_floor (js_mul (Fin 255)
                (js_sub (Fin 1) (js_div (js_sub ratio (Fin (2 / 10))) (Fin (2 / 10))))))
         else if js_lt ratio (Fin (6 / 10)) then
           Rgb (js_floor (js_mul (Fin 255) (js_div (js_sub ratio (Fin (4 / 10))) (Fin (2 / 10)))))
             (Fin 255) (Fin 0)
         else if js_lt ratio (Fin (8 / 10)) then
           Rgb (Fin 255)
             (js_floor (js_mul (Fin 255)
                (js_sub (Fin 1) (js_div (js_sub ratio (Fin (6 / 10))) (Fin (2 / 10))))))
             (Fin 0)
         else
           Rgb (Fin 255) (Fin 0)
             (js_floor (js_mul (Fin 255) (js_div (js_sub ratio (Fin (8 / 10))) (Fin (2 / 10))))))"

text \<open>
  \<^verbatim>\<open>valueToColor(value)\<close> of Spectrogram.vue, on the scale 0 to 255; the result is the
  object \<^verbatim>\<open>{r, g, b}\<close>.
\<close>

definition valueToColor :: "jsnum \<Rightarrow> jsnum \<times> jsnum \<times> jsnum" where
  "valueToColor value0 =
     (let value = js_min (Fin 255) (js_max (Fin 0) value0)
      in if js_lt value (Fin 85) then
           (Fin 0, js_floor (js_mul value (Fin 3)), Fin 255)
         else if js_lt value (Fin 170) then
           (let value = js_sub value (Fin 85)
            in (js_floor (js_mul value (Fin 3)), Fin 255,
                js_sub (Fin 255) (js_floor (js_mul value (Fin 3)))))
         else
           (let value = js_sub value (Fin 170)
            in (Fin 255, js_sub (Fin 255) (js_floor (js_mul value (Fin 3))), Fin 0)))"

text \<open>The three numbers of a colour, to compare the two mappings.\<close>

fun rgb_of :: "style \<Rightarrow> jsnum \<times> jsnum \<times> jsnum" where
  "rgb_of (Rgb r g b) = (r, g, b)"
| "rgb_of st = (NaN, NaN, NaN)"

text \<open>Two channel values at most one unit apart; two colours so in every channel.\<close>

fun chan_close :: "jsnum \<Rightarrow> jsnum \<Rightarrow> bool" where
  "chan_close (Fin a) (Fin b) = (\<bar>a - b\<bar> \<le> 1)"
| "chan_close a b = False"

fun rgb_close :: "jsnum \<times> jsnum \<times> jsnum \<Rightarrow> jsnum \<times> jsnum \<times> jsnum \<Rightarrow> bool" where
  "rgb_close (r, g, b) (r', g', b') = (chan_close r r' \<and> chan_close g g' \<and> chan_close b b')"

text \<open>The number of channels in which two colours differ.\<close>

fun channels_changed :: "jsnum \<times> jsnum \<times> jsnum \<Rightarrow> jsnum \<times> jsnum \<times> jsnum \<Rightarrow> nat" where
  "channels_changed (r, g, b) (r', g', b') =
     (if r = r' then 0 else 1) + (if g = g' then 0 else 1) + (if b = b' then 0 else 1)"

text \<open>The five segments of the normalized range, numbered from 0.\<close>

definition segment5 :: "real \<Rightarrow> nat" where
  "segment5 ratio =
     (if ratio < 2 / 10 then 0 else if ratio < 4 / 10 then 1
      else if ratio < 6 / 10 then 2 else if ratio < 8 / 10 then 3 else 4)"

section \<open>Magnitude processing\<close>



text \<open>
  The loop of \<^verbatim>\<open>processFFTData\<close> (simulated analyzer): the FFT output holds the real and
  the imaginary part of bin \<open>i\<close> at \<open>2 i\<close> and \<open>2 i + 1\<close>; the number of bins does not depend
  on the array but on the configured FFT size, \<^verbatim>\<open>Math.min(256, FFT_CONFIG.size / 2)\<close>.
\<close>

definition FFT_CONFIG_size :: nat where
  "FFT_CONFIG_size = 1024"

definition fft_magnitude :: "bool \<Rightarrow> jsnum list \<Rightarrow> nat \<Rightarrow> jsnum" where
  "fft_magnitude logScaleOn fftOutput i =
     (let re = js_nth fftOutput (i * 2);
          im = js_nth fftOutput (i * 2 + 1);
          magnitude = js_sqrt (js_add (js_mul re re) (js_mul im im));
          magnitude = (if logScaleOn \<and> js_gt magnitude (Fin 0)
                       then js_mul (js_log10 magnitude) (Fin 10) else magnitude)
      in js_max (Fin 0) magnitude)"

definition fft_magnitudes :: "bool \<Rightarrow> jsnum list \<Rightarrow> frame" where
  "fft_magnitudes logScaleOn fftOutput =
     (let maxFrequencies = min 256 (FFT_CONFIG_size div 2)
      in map (fft_magnitude logScaleOn fftOutput) [0..<maxFrequencies])"








section \<open>The canvas renderers of main.ts and of the simulated analyzer\<close>

text \<open>
  The two files have the same three renderers but for the floor of the normalization
  denominator (\<^verbatim>\<open>maxMagnitude = Math.max(maxMagnitude, c)\<close>): main.ts has \<open>c = 1\<close> in all
  three; the simulated analyzer has \<open>c = 0.1\<close> in the bars and the line graph and no such
  line in the spectrogram. The floor is a parameter here (\<open>None\<close>: no floor).
\<close>

definition frame_max :: "frame \<Rightarrow> jsnum \<Rightarrow> jsnum" where
  "frame_max magnitudes m0 = fold (\<lambda>mag m. js_max m mag) magnitudes m0"

definition history_max :: "frame list \<Rightarrow> jsnum" where
  "history_max fftHistory = fold (\<lambda>row m. frame_max row m) fftHistory (Fin 0)"

definition floor_max :: "jsnum option \<Rightarrow> jsnum \<Rightarrow> jsnum" where
  "floor_max fl m = (case fl of None \<Rightarrow> m | Some c \<Rightarrow> js_max m c)"

definition drawSpectrogram :: "jsnum option \<Rightarrow> frame list \<Rightarrow> 'a canvas_scheme \<Rightarrow> 'a canvas_scheme" where
  "drawSpectrogram fl fftHistory c =
     (let width = num (canvas_width c);
          height = num (canvas_height c);
          historyCount = length fftHistory;
          barWidth = js_div width (num MAX_HISTORY);
          barHeight = js_div height (Fin 256);
          maxMagnitude = floor_max fl (history_max fftHistory)
      in fold (\<lambda>h c.
           (let x = js_sub width (js_mul (num (historyCount - h)) barWidth);
                magnitudes = fftHistory ! h
            in fold (\<lambda>i c.
                 (let y = js_sub height (js_mul (num (i + 1)) barHeight);
                      color = getColor (magnitudes ! i) maxMagnitude
                  in fillRect x y barWidth barHeight (set_fillStyle color c)))
                 [0..<length magnitudes] c))
           [0..<historyCount] c)"

definition freq_bar ::
  "frame \<Rightarrow> bool \<Rightarrow> jsnum \<Rightarrow> nat \<Rightarrow> 'a canvas_scheme \<Rightarrow> 'a canvas_scheme" where
  "freq_bar magnitudes showPeaksOn maxMagnitude i c =
     (let width = num (canvas_width c);
          height = num (canvas_height c);
          barCount = length magnitudes;
          barWidth = js_div width (num barCount);
          padding = js_mul barWidth (Fin (1 / 10));
          barHeight = js_mul (js_div (magnitudes ! i) maxMagnitude) height;
          x = js_mul (num i) barWidth;
          y = js_sub height barHeight;
          color = getColor (magnitudes ! i) maxMagnitude;
          c1 = fillRect (js_add x (js_div padding (Fin 2))) y (js_sub barWidth padding) barHeight
                 (set_fillStyle color c)
      in if showPeaksOn \<and> i > 0 \<and> i < barCount - 1
            \<and> js_gt (magnitudes ! i) (magnitudes ! (i - 1))
            \<and> js_gt (magnitudes ! i) (magnitudes ! (i + 1))
         then fillRect (js_sub (js_add x (js_div barWidth (Fin 2))) (Fin 1)) (js_sub y (Fin 4))
                (Fin 2) (Fin 4) (set_fillStyle White c1)
         else c1)"

definition drawFrequencyBars ::
  "jsnum option \<Rightarrow> bool \<Rightarrow> frame \<Rightarrow> 'a canvas_scheme \<Rightarrow> 'a canvas_scheme" where
  "drawFrequencyBars fl showPeaksOn magnitudes c =
     (let maxMagnitude = floor_max fl (frame_max magnitudes (Fin 0))
      in fold (freq_bar magnitudes showPeaksOn maxMagnitude) [0..<length magnitudes] c)"

text \<open>The point of bin \<open>i\<close> in \<^verbatim>\<open>drawLineGraph\<close>.\<close>

definition graph_x :: "nat \<Rightarrow> jsnum \<Rightarrow> nat \<Rightarrow> jsnum" where
  "graph_x pointCount width i = js_mul (js_div (num i) (num pointCount)) width"

definition graph_y :: "frame \<Rightarrow> jsnum \<Rightarrow> jsnum \<Rightarrow> nat \<Rightarrow> jsnum" where
  "graph_y magnitudes maxMagnitude height i =
     js_sub height (js_mul (js_div (js_nth magnitudes i) maxMagnitude) height)"

definition drawLineGraph ::
  "jsnum option \<Rightarrow> bool \<Rightarrow> frame \<Rightarrow> 'a canvas_scheme \<Rightarrow> 'a canvas_scheme" where
  "drawLineGraph fl showPeaksOn magnitudes c =
     (let width = num (canvas_width c);
          height = num (canvas_height c);
          pointCount = length magnitudes;
          maxMagnitude = floor_max fl (frame_max magnitudes (Fin 0));
          gx = graph_x pointCount width;
          gy = graph_y magnitudes maxMagnitude height;
          c1 = emit (MoveTo (Fin 0) height) (emit BeginPath c);
          c2 = fold (\<lambda>i. emit (LineTo (gx i) (gy i))) [0..<pointCount] c1;
          c3 = emit ClosePath (emit (LineTo width height) c2);
          gradient = LinearGradient height
                       [(0, Rgba 255 64 64 (8 / 10)), (5 / 10, Rgba 255 128 0 (5 / 10)),
                        (1, Rgba 0 64 255 (1 / 10))];
          c4 = fill (set_fillStyle gradient c3);
          c5 = emit (MoveTo (Fin 0) (gy 0)) (emit BeginPath c4);
          c6 = fold (\<lambda>i. emit (LineTo (gx i) (gy i))) [1..<pointCount] c5;
          c7 = emit (Stroke (Rgb (Fin 255) (Fin 255) (Fin 255)) 2) c6
      in if showPeaksOn then
           fold (\<lambda>i c.
             if js_gt (magnitudes ! i) (magnitudes ! (i - 1))
                \<and> js_gt (magnitudes ! i) (magnitudes ! (i + 1))
             then fill (emit (Arc (gx i) (gy i)) (emit BeginPath c))
             else c)
             [1..<pointCount - 1] (set_fillStyle White c7)
         else c7)"

text \<open>
  \<^verbatim>\<open>drawVisualization\<close>: the canvas is cleared and the renderer chosen by the value of the
  selector; any other value draws the spectrogram. The floors are those of the file.
\<close>

record floors =
  spectrogram_floor :: "jsnum option"
  bars_floor :: "jsnum option"
  line_floor :: "jsnum option"

definition main_floors :: floors where
  "main_floors = \<lparr>spectrogram_floor = Some (Fin 1), bars_floor = Some (Fin 1),
                  line_floor = Some (Fin 1)\<rparr>"

definition sim_floors :: floors where
  "sim_floors = \<lparr>spectrogram_floor = None, bars_floor = Some (Fin (1 / 10)),
                 line_floor = Some (Fin (1 / 10))\<rparr>"

definition drawVisualization ::
  "floors \<Rightarrow> string \<Rightarrow> bool \<Rightarrow> frame list \<Rightarrow> frame \<Rightarrow> 'a canvas_scheme \<Rightarrow> 'a canvas_scheme" where
  "drawVisualization fls type showPeaksOn fftHistory magnitudes c =
     (let c0 = clearRect c
      in if type = ''spectrogram'' then drawSpectrogram (spectrogram_floor fls) fftHistory c0
         else if type = ''bars'' then drawFrequencyBars (bars_floor fls) showPeaksOn magnitudes c0
         else if type = ''line'' then drawLineGraph (line_floor fls) showPeaksOn magnitudes c0
         else drawSpectrogram (spectrogram_floor fls) fftHistory c0)"

section \<open>The simulated analyzer and its state manager\<close>

text \<open>
  The page of the simulated analyzer: the canvas, the history, the three controls, the
  \<^verbatim>\<open>AnalysisState\<close> object (\<^verbatim>\<open>_interval\<close>, \<^verbatim>\<open>_isPaused\<close>) and the interval timers of the
  window: \<^verbatim>\<open>setInterval\<close> hands out a fresh handle and keeps the timer until
  \<^verbatim>\<open>clearInterval\<close> removes it.
\<close>

record sim_state = canvas +
  fftHistory :: "frame list"
  logScaleChecked :: bool
  showPeaksChecked :: bool
  visualizationType :: string
  interval :: "nat option"
  isPaused :: bool
  timers :: "nat list"
  next_handle :: nat

definition processFFTData :: "jsnum list \<Rightarrow> sim_state \<Rightarrow> sim_state" where
  "processFFTData fftOutput s =
     (let magnitudes = fft_magnitudes (logScaleChecked s) fftOutput;
          s1 = s\<lparr>fftHistory := history_push MAX_HISTORY (fftHistory s) magnitudes\<rparr>
      in drawVisualization sim_floors (visualizationType s1) (showPeaksChecked s1)
           (fftHistory s1) magnitudes s1)"

definition isRunning :: "sim_state \<Rightarrow> bool" where
  "isRunning s = (interval s \<noteq> None)"

text \<open>
  The callback given to \<^verbatim>\<open>setInterval\<close>; the FFT output it processes is what
  \<^verbatim>\<open>generateMockFFTData\<close> returns at that moment (it depends on the clock and on
  \<^verbatim>\<open>Math.random\<close>), an input of the model.
\<close>

definition interval_callback :: "jsnum list \<Rightarrow> sim_state \<Rightarrow> sim_state" where
  "interval_callback fftOutput s = (if \<not> isPaused s then processFFTData fftOutput s else s)"

definition start :: "sim_state \<Rightarrow> sim_state" where
  "start s =
     (if isRunning s then s
      else s\<lparr>isPaused := False, interval := Some (next_handle s),
             timers := next_handle s # timers s, next_handle := Suc (next_handle s)\<rparr>)"

definition stop :: "sim_state \<Rightarrow> sim_state" where
  "stop s =
     (case interval s of
        Some h \<Rightarrow> s\<lparr>timers := removeAll h (timers s), interval := None, isPaused := False\<rparr>
      | None \<Rightarrow> s\<lparr>isPaused := False\<rparr>)"

definition togglePause :: "sim_state \<Rightarrow> sim_state" where
  "togglePause s = s\<lparr>isPaused := \<not> isPaused s\<rparr>"

text \<open>The window fires the timer \<open>h\<close>: its callback runs if the timer is still set.\<close>

definition timer_fires :: "nat \<Rightarrow> jsnum list \<Rightarrow> sim_state \<Rightarrow> sim_state" where
  "timer_fires h fftOutput s = (if h \<in> set (timers s) then interval_callback fftOutput s else s)"

section \<open>The Vue renderer Spectrogram\<close>






text \<open>
  The index of the bin is the one place of this renderer where the rounding of doubles
  decides a discrete result, so there it is modelled. \<open>to_double x\<close> is the double
  nearest to the real number \<open>x\<close> (round to nearest, ties to even, 53 significant
  bits), for \<open>x\<close> zero or in the range of the normal doubles, as every number is that
  this renderer computes from the sizes of a canvas: with \<open>e\<close> the binary exponent of
  \<open>x\<close>, it is the multiple of \<open>2^(e - 52)\<close> nearest to \<open>x\<close>.
\<close>

definition round_half_even :: "real \<Rightarrow> int" where
  "round_half_even x =
     (let f = \<lfloor>x\<rfloor>; d = x - of_int f
      in if d < 1 / 2 then f else if 1 / 2 < d then f + 1
         else if even f then f else f + 1)"

definition to_double :: "real \<Rightarrow> real" where
  "to_double x =
     (if x = 0 then 0
      else
        (let e = \<lfloor>log 2 \<bar>x\<bar>\<rfloor> - 52;
             ulp = (if 0 \<le> e then 2 ^ nat e else 1 / 2 ^ nat (- e))
         in ulp * of_int (round_half_even (x / ulp))))"

text \<open>
  The bin of row \<open>y\<close>: \<^verbatim>\<open>Math.floor((height - y - 1) * (frequencyBins / height))\<close>, for a
  row \<open>y < height\<close> (so that \<open>height\<close> is not zero). The three integers are doubles as
  they stand; the quotient is rounded, then the product.
\<close>

definition row_bin :: "nat \<Rightarrow> nat \<Rightarrow> nat \<Rightarrow> int" where
  "row_bin height frequencyBins y =
     \<lfloor>to_double (real (height - y - 1) * to_double (real frequencyBins / real height))\<rfloor>"




section \<open>What the bars renderers painted\<close>

text \<open>
  A bar of height 0 at finite coordinates; a peak marker (the Vue component paints it in
  translucent white, the other two in white); the bars among the calls of a raster; and
  the raster of \<open>i\<close> bars, all of height 0.
\<close>

fun zero_height_bar :: "cmd \<Rightarrow> bool" where
  "zero_height_bar (FillRect st x y w h) = (is_fin x \<and> is_fin y \<and> is_fin w \<and> h = Fin 0)"
| "zero_height_bar k = False"

fun peak_marker :: "cmd \<Rightarrow> bool" where
  "peak_marker (FillRect (Rgba r g b a) x y w h) = True"
| "peak_marker (FillRect White x y w h) = True"
| "peak_marker k = False"

definition bars_only :: "cmd list \<Rightarrow> cmd list" where
  "bars_only cmds = filter (\<lambda>k. \<not> peak_marker k) cmds"

definition bars_done :: "nat \<Rightarrow> 'a canvas_scheme \<Rightarrow> bool" where
  "bars_done i c = (length (bars_only (raster c)) = i \<and> list_all zero_height_bar (bars_only (raster c)))"

section \<open>What the spectrogram painted\<close>




section \<open>Example states\<close>

text \<open>
  A mounted component that has not drawn yet, on a canvas 10 wide and 100 high; and the
  state the Bars renderer leaves after drawing the one-bin frame \<open>[1]\<close> with peaks on,
  when the bin's peak is \<open>p\<close> and its hold counter \<open>k\<close>.
\<close>

definition bars_fresh :: vis_state where
  "bars_fresh = \<lparr>canvas_width = 10, canvas_height = 100, fillStyle = White, raster = [],
     has_canvas = True, peakValues = [], peakHoldFrames = []\<rparr>"

definition bars_held :: "real \<Rightarrow> nat \<Rightarrow> vis_state" where
  "bars_held p k = \<lparr>canvas_width = 10, canvas_height = 100,
     fillStyle = Rgba 255 255 255 (8 / 10),
     raster = [FillRect (Hsl (Fin 0)) (Fin (1 / 2)) (Fin 0) (Fin 9) (Fin 100),
               FillRect (Rgba 255 255 255 (8 / 10)) (Fin (1 / 2)) (Fin (100 - p)) (Fin 9) (Fin 2)],
     has_canvas = True, peakValues = [Fin p], peakHoldFrames = [k]\<rparr>"

definition peaks_on :: options where
  "peaks_on = \<lparr>logScale = True, showPeaks = True\<rparr>"

definition peaks_off :: options where
  "peaks_off = \<lparr>logScale = True, showPeaks = False\<rparr>"

definition sim_idle :: sim_state where
  "sim_idle = \<lparr>canvas_width = 200, canvas_height = 100, fillStyle = White, raster = [],
     fftHistory = [], logScaleChecked = False, showPeaksChecked = False,
     visualizationType = ''bars'', interval = None, isPaused = False,
     timers = [], next_handle = 1\<rparr>"


section \<open>Properties of the history buffer\<close>

lemma history_push_length:
  "length h \<le> cap \<Longrightarrow> length (history_push cap h f) \<le> cap"
  by (simp add: history_push_def Let_def)

lemma history_push_all_length:
  "length h \<le> cap \<Longrightarrow> length (history_push_all cap h fs) \<le> cap"
  unfolding history_push_all_def
  by (induction fs arbitrary: h) (simp_all add: history_push_length)

lemma history_push_all_drop:
  "length h \<le> cap \<Longrightarrow>
   history_push_all cap h fs = drop (length h + length fs - cap) (h @ fs)"
proof (induction fs arbitrary: h)
  case Nil
  then show ?case by (simp add: history_push_all_def)
next
  case (Cons f fs)
  let ?h' = "history_push cap h f"
  have len: "length ?h' \<le> cap"
    using Cons.prems by (rule history_push_length)
  have step: "history_push_all cap h (f # fs) = drop (length ?h' + length fs - cap) (?h' @ fs)"
    using Cons.IH [OF len] by (simp add: history_push_all_def)
  show ?case
  proof (cases "Suc (length h) \<le> cap")
    case True
    then have "?h' = h @ [f]" by (simp add: history_push_def Let_def)
    with step show ?thesis by simp
  next
    case False
    with Cons.prems have eq: "length h = cap" by simp
    then have h': "?h' = tl (h @ [f])" by (simp add: history_push_def Let_def)
    have A: "?h' @ fs = drop 1 (h @ f # fs)"
      unfolding h' by (cases h) (simp_all add: drop_Suc)
    have B: "length ?h' + length fs - cap = length fs"
      unfolding h' using eq by simp
    have C: "length fs + 1 = length h + length (f # fs) - cap"
      using eq by simp
    have "history_push_all cap h (f # fs) = drop (length fs) (drop 1 (h @ f # fs))"
      using step unfolding A B .
    also have "\<dots> = drop (length fs + 1) (h @ f # fs)"
      by (rule drop_drop)
    finally show ?thesis unfolding C .
  qed
qed

text \<open>
  C2. Starting from the empty buffer, the length never exceeds the capacity, whatever
  frames are pushed; and once \<open>cap + k\<close> frames have been pushed the buffer holds exactly
  the last \<open>cap\<close> of them, oldest first. With the source's constant the capacity is
  \<open>MAX_HISTORY = 200\<close>.
\<close>

theorem history_bounded_last_cap:
  "length (history_push_all cap [] fs) \<le> cap \<and>
   length (history_push_all MAX_HISTORY [] fs) \<le> 200 \<and>
   (length fs = cap + k \<longrightarrow> history_push_all cap [] fs = drop k fs)"
proof -
  have a: "length (history_push_all cap [] fs) \<le> cap"
    by (rule history_push_all_length) simp
  have b: "length (history_push_all MAX_HISTORY [] fs) \<le> MAX_HISTORY"
    by (rule history_push_all_length) simp
  have c: "history_push_all cap [] fs = drop (length fs - cap) fs"
    using history_push_all_drop [of "[]" cap fs] by simp
  show ?thesis using a b c by (simp add: MAX_HISTORY_def)
qed

theorem history_bounded_last_cap_witness:
  "length [[10, 20, 30], [40, 50, 60], [70, 80, 90 :: int]] = 2 + 1 \<and>
   history_push_all 2 [] [[10, 20, 30], [40, 50, 60], [70, 80, 90 :: int]]
     = [[40, 50, 60], [70, 80, 90]]"
  using history_bounded_last_cap [of 2 "[[10, 20, 30], [40, 50, 60], [70, 80, 90 :: int]]" 1]
  by simp

section \<open>Properties of the peak tracker\<close>

lemma peak_run_snoc: "peak_run (hs @ [h]) ph = peak_update h (peak_run hs ph)"
  by (simp add: peak_run_def)

lemma peak_silence_closed_form:
  assumes "0 < v" and "p0 < v"
  shows "peak_run (Fin v # replicate t (Fin 0)) (Fin p0, k0) =
     (if t \<le> PEAK_HOLD_TIME then (Fin v, PEAK_HOLD_TIME - t)
      else (Fin (v * (8 / 10) ^ (t - PEAK_HOLD_TIME)), 0))"
proof (induction t)
  case 0
  from assms show ?case
    by (simp add: peak_run_def peak_update_def js_gt_def)
next
  case (Suc t)
  have "peak_run (Fin v # replicate (Suc t) (Fin 0)) (Fin p0, k0) =
        peak_update (Fin 0) (peak_run (Fin v # replicate t (Fin 0)) (Fin p0, k0))"
    using peak_run_snoc [of "Fin v # replicate t (Fin 0)" "Fin 0" "(Fin p0, k0)"]
    by (simp add: replicate_append_same)
  also have "\<dots> = (if Suc t \<le> PEAK_HOLD_TIME then (Fin v, PEAK_HOLD_TIME - Suc t)
      else (Fin (v * (8 / 10) ^ (Suc t - PEAK_HOLD_TIME)), 0))"
  proof (cases "t < PEAK_HOLD_TIME")
    case True
    then have "peak_run (Fin v # replicate t (Fin 0)) (Fin p0, k0) = (Fin v, PEAK_HOLD_TIME - t)"
      using Suc.IH by simp
    with True assms show ?thesis
      by (simp add: peak_update_def js_gt_def)
  next
    case False
    define q where "q = v * (8 / 10) ^ (t - PEAK_HOLD_TIME)"
    have pos: "0 \<le> q"
      using assms by (simp add: q_def)
    have st: "peak_run (Fin v # replicate t (Fin 0)) (Fin p0, k0) = (Fin q, 0)"
      using Suc.IH False by (cases "t = PEAK_HOLD_TIME") (simp_all add: q_def)
    have "Suc t - PEAK_HOLD_TIME = Suc (t - PEAK_HOLD_TIME)"
      using False by simp
    then have "v * (8 / 10) ^ (Suc t - PEAK_HOLD_TIME) = q * (8 / 10)"
      by (simp add: q_def)
    with False pos show ?thesis
      by (simp add: st peak_update_def js_gt_def PEAK_FALL_SPEED_def not_less)
  qed
  finally show ?case .
qed

lemma peak_update_no_rise:
  assumes "0 \<le> p" and "\<not> js_gt h (Fin p)"
  shows "\<not> js_gt (fst (peak_update h (Fin p, k))) (Fin p)"
proof (cases "0 < k")
  case True
  with assms show ?thesis by (simp add: peak_update_def js_gt_def)
next
  case False
  have "p * (8 / 10) \<le> p" using assms(1) by simp
  with False assms show ?thesis
    by (simp add: peak_update_def PEAK_FALL_SPEED_def js_gt_def)
qed

text \<open>
  C3. A bin whose stored peak is below a spike \<open>v > 0\<close> receives the spike and then \<open>t\<close>
  ticks of silence (height 0). After the spike the peak is \<open>v\<close> and the hold counter 30;
  through the next 30 ticks the peak stays \<open>v\<close> while the counter runs down to 0; from
  tick 31 on each tick multiplies the peak by 0.8, so after \<open>30 + j\<close> silent ticks it is
  \<open>v * 0.8 ^ j\<close>. And whatever the state, a tick whose height does not strictly exceed
  the stored (non-negative) peak never leaves a larger peak.
\<close>

theorem peak_hold_then_decay:
  assumes "0 < v" and "p0 < v" and "0 \<le> p" and "\<not> js_gt h (Fin p)"
  shows "peak_run (Fin v # replicate t (Fin 0)) (Fin p0, k0) =
           (if t \<le> 30 then (Fin v, 30 - t) else (Fin (v * (8 / 10) ^ (t - 30)), 0))
         \<and> \<not> js_gt (fst (peak_update h (Fin p, k))) (Fin p)"
  using peak_silence_closed_form [OF assms(1,2), of t k0]
    peak_update_no_rise [OF assms(3,4), of k]
  by (simp add: PEAK_HOLD_TIME_def)

theorem peak_hold_then_decay_witness:
  "peak_run (Fin 100 # replicate 30 (Fin 0)) (Fin 0, 0) = (Fin 100, 0)
   \<and> peak_run (Fin 100 # replicate 32 (Fin 0)) (Fin 0, 0) = (Fin 64, 0)
   \<and> \<not> js_gt (fst (peak_update (Fin 50) (Fin 100, 0))) (Fin 100)"
  using peak_hold_then_decay [of 100 0 100 "Fin 50" 30 0 0]
    peak_hold_then_decay [of 100 0 100 "Fin 50" 32 0 0]
  by (simp add: js_gt_def power2_eq_square)

section \<open>Properties of the Bars and Line renderers\<close>

lemma track_peak_canvas [simp]:
  "has_canvas (track_peak i b s) = has_canvas s"
  "canvas_width (track_peak i b s) = canvas_width s"
  "canvas_height (track_peak i b s) = canvas_height s"
  "raster (track_peak i b s) = raster s"
  "fillStyle (track_peak i b s) = fillStyle s"
  by (simp_all add: track_peak_def Let_def)

lemma canvas_ops_fields [simp]:
  "peakValues (emit k s) = peakValues s"
  "peakHoldFrames (emit k s) = peakHoldFrames s"
  "has_canvas (emit k s) = has_canvas s"
  "canvas_width (emit k s) = canvas_width s"
  "canvas_height (emit k s) = canvas_height s"
  "peakValues (set_fillStyle st s) = peakValues s"
  "peakHoldFrames (set_fillStyle st s) = peakHoldFrames s"
  "has_canvas (set_fillStyle st s) = has_canvas s"
  "canvas_width (set_fillStyle st s) = canvas_width s"
  "canvas_height (set_fillStyle st s) = canvas_height s"
  "peakValues (fillRect x y w h s) = peakValues s"
  "peakHoldFrames (fillRect x y w h s) = peakHoldFrames s"
  "has_canvas (fillRect x y w h s) = has_canvas s"
  "canvas_width (fillRect x y w h s) = canvas_width s"
  "canvas_height (fillRect x y w h s) = canvas_height s"
  "peakValues (clearRect s) = peakValues s"
  "peakHoldFrames (clearRect s) = peakHoldFrames s"
  "has_canvas (clearRect s) = has_canvas s"
  "canvas_width (clearRect s) = canvas_width s"
  "canvas_height (clearRect s) = canvas_height s"
  "peakValues (fill s) = peakValues s"
  "peakHoldFrames (fill s) = peakHoldFrames s"
  "has_canvas (fill s) = has_canvas s"
  "canvas_width (fill s) = canvas_width s"
  "canvas_height (fill s) = canvas_height s"
  by (simp_all add: emit_def set_fillStyle_def fillRect_def clearRect_def fill_def)

lemma init_peaks_fields [simp]:
  "has_canvas (init_peaks n s) = has_canvas s"
  "canvas_width (init_peaks n s) = canvas_width s"
  "canvas_height (init_peaks n s) = canvas_height s"
  "raster (init_peaks n s) = raster s"
  "fillStyle (init_peaks n s) = fillStyle s"
  "length (peakValues (init_peaks n s)) = n"
  by (simp_all add: init_peaks_def)

lemma init_peaks_same: "length (peakValues s) = n \<Longrightarrow> init_peaks n s = s"
  by (simp add: init_peaks_def)

text \<open>With peaks off, a bin of either renderer leaves the two arrays alone.\<close>

lemma bars_bin_off_peaks:
  "\<not> showPeaks opts \<Longrightarrow>
   peakValues (bars_bin f opts h m i s) = peakValues s \<and>
   peakHoldFrames (bars_bin f opts h m i s) = peakHoldFrames s"
  by (simp add: bars_bin_def Let_def)

lemma line_bin_off_peaks:
  "\<not> showPeaks opts \<Longrightarrow>
   peakValues (line_bin f opts h m sp i s) = peakValues s \<and>
   peakHoldFrames (line_bin f opts h m sp i s) = peakHoldFrames s"
  by (simp add: line_bin_def Let_def)

lemma fold_keeps:
  assumes "\<And>i s. g (step i s) = g s"
  shows "g (fold step is s) = g s"
  using assms by (induction "is" arbitrary: s) simp_all

lemma bars_draw_off_peaks:
  assumes "\<not> showPeaks opts" and "f = [] \<or> length f = length (peakValues s)"
  shows "peakValues (bars_draw f opts s) = peakValues s \<and>
         peakHoldFrames (bars_draw f opts s) = peakHoldFrames s"
proof (cases "\<not> has_canvas s \<or> length f = 0")
  case True
  then show ?thesis by (simp add: bars_draw_def)
next
  case False
  with assms(2) have len: "length (peakValues s) = length f" by auto
  have i: "init_peaks (length f) (clearRect s) = clearRect s"
    by (rule init_peaks_same) (simp add: len)
  have a: "peakValues (fold (bars_bin f opts h m) js t) = peakValues t" for h m js t
    by (rule fold_keeps) (simp add: bars_bin_off_peaks assms(1))
  have b: "peakHoldFrames (fold (bars_bin f opts h m) js t) = peakHoldFrames t" for h m js t
    by (rule fold_keeps) (simp add: bars_bin_off_peaks assms(1))
  from False show ?thesis
    by (simp add: bars_draw_def Let_def i a b)
qed

lemma line_draw_off_peaks:
  assumes "\<not> showPeaks opts" and "f = [] \<or> length f = length (peakValues s)"
  shows "peakValues (line_draw f opts s) = peakValues s \<and>
         peakHoldFrames (line_draw f opts s) = peakHoldFrames s"
proof (cases "\<not> has_canvas s \<or> length f = 0")
  case True
  then show ?thesis by (simp add: line_draw_def)
next
  case False
  with assms(2) have len: "length (peakValues s) = length f" by auto
  have i: "init_peaks (length f) (clearRect s) = clearRect s"
    by (rule init_peaks_same) (simp add: len)
  have a: "peakValues (fold (line_bin f opts h m sp) js t) = peakValues t" for h m sp js t
    by (rule fold_keeps) (simp add: line_bin_off_peaks assms(1))
  have b: "peakHoldFrames (fold (line_bin f opts h m sp) js t) = peakHoldFrames t" for h m sp js t
    by (rule fold_keeps) (simp add: line_bin_off_peaks assms(1))
  from False assms(1) show ?thesis
    by (simp add: line_draw_def Let_def i a b)
qed


text \<open>
  With peaks off, what a draw does to the two arrays whatever the bin count: they are made
  anew, all zero, when the frame is drawn and its bin count is not theirs.
\<close>

lemma bars_draw_off_arrays:
  assumes "\<not> showPeaks opts"
  shows "peakValues (bars_draw f opts s) =
           (if has_canvas s \<and> f \<noteq> [] \<and> length (peakValues s) \<noteq> length f
            then replicate (length f) (Fin 0) else peakValues s)
       \<and> peakHoldFrames (bars_draw f opts s) =
           (if has_canvas s \<and> f \<noteq> [] \<and> length (peakValues s) \<noteq> length f
            then replicate (length f) 0 else peakHoldFrames s)"
proof -
  have a: "peakValues (fold (bars_bin f opts h m) js t) = peakValues t" for h m js t
    by (rule fold_keeps) (simp add: bars_bin_off_peaks assms(1))
  have b: "peakHoldFrames (fold (bars_bin f opts h m) js t) = peakHoldFrames t" for h m js t
    by (rule fold_keeps) (simp add: bars_bin_off_peaks assms(1))
  show ?thesis
    by (simp add: bars_draw_def Let_def a b init_peaks_def)
qed

lemma line_draw_off_arrays:
  assumes "\<not> showPeaks opts"
  shows "peakValues (line_draw f opts s) =
           (if has_canvas s \<and> f \<noteq> [] \<and> length (peakValues s) \<noteq> length f
            then replicate (length f) (Fin 0) else peakValues s)
       \<and> peakHoldFrames (line_draw f opts s) =
           (if has_canvas s \<and> f \<noteq> [] \<and> length (peakValues s) \<noteq> length f
            then replicate (length f) 0 else peakHoldFrames s)"
proof -
  have a: "peakValues (fold (line_bin f opts h m p) js t) = peakValues t" for h m p js t
    by (rule fold_keeps) (simp add: line_bin_off_peaks assms(1))
  have b: "peakHoldFrames (fold (line_bin f opts h m p) js t) = peakHoldFrames t" for h m p js t
    by (rule fold_keeps) (simp add: line_bin_off_peaks assms(1))
  show ?thesis
    using assms by (simp add: line_draw_def Let_def a b init_peaks_def)
qed

lemma hue_valid: "n \<noteq> 0 \<Longrightarrow> valid_style (Hsl (js_mul (js_div (num i) (num n)) (Fin 240)))"
  by (simp add: num_def)

lemma bars_bin_fillStyle_indep:
  "f \<noteq> [] \<Longrightarrow> bars_bin f opts h m i (s\<lparr>fillStyle := st\<rparr>) = bars_bin f opts h m i s"
  using hue_valid [of "length f" i]
  by (simp add: bars_bin_def Let_def set_fillStyle_def fillRect_def emit_def track_peak_def)

lemma init_peaks_fillStyle:
  "init_peaks n (s\<lparr>fillStyle := st\<rparr>) = (init_peaks n s)\<lparr>fillStyle := st\<rparr>"
  by (simp add: init_peaks_def)

lemma bars_fold_fillStyle_indep:
  assumes "f \<noteq> []"
  shows "fold (bars_bin f opts h m) [0..<length f] (t\<lparr>fillStyle := st\<rparr>) =
         fold (bars_bin f opts h m) [0..<length f] t"
proof -
  from assms have "0 < length f" by simp
  then have u: "[0..<length f] = 0 # [Suc 0..<length f]"
    by (rule upt_conv_Cons)
  show ?thesis
    unfolding u by (simp add: bars_bin_fillStyle_indep [OF assms])
qed

lemma clearRect_raster_fillStyle:
  "clearRect (s\<lparr>raster := r, fillStyle := st\<rparr>) = (clearRect s)\<lparr>fillStyle := st\<rparr>"
  by (simp add: clearRect_def)

lemma bars_draw_indep:
  assumes "f \<noteq> []" and "has_canvas s"
  shows "bars_draw f opts (s\<lparr>raster := r, fillStyle := st\<rparr>) = bars_draw f opts s"
  using assms
  by (simp add: bars_draw_def Let_def clearRect_raster_fillStyle init_peaks_fillStyle
      bars_fold_fillStyle_indep)

lemma line_bin_fillStyle:
  "line_bin f opts h m sp i (s\<lparr>fillStyle := st\<rparr>) = (line_bin f opts h m sp i s)\<lparr>fillStyle := st\<rparr>"
  by (simp add: line_bin_def Let_def emit_def track_peak_def)

lemma line_peak_bin_fillStyle:
  "line_peak_bin h sp i (s\<lparr>fillStyle := st\<rparr>) = (line_peak_bin h sp i s)\<lparr>fillStyle := st\<rparr>"
  by (simp add: line_peak_bin_def Let_def emit_def)

lemma fold_commute_upd:
  assumes "\<And>i s. step i (upd s) = upd (step i s)"
  shows "fold step is (upd s) = upd (fold step is s)"
  using assms by (induction "is" arbitrary: s) simp_all

lemma emit_fillStyle: "emit k (s\<lparr>fillStyle := st\<rparr>) = (emit k s)\<lparr>fillStyle := st\<rparr>"
  by (simp add: emit_def)

lemma set_fillStyle_override:
  "valid_style g \<Longrightarrow> set_fillStyle g (s\<lparr>fillStyle := st\<rparr>) = set_fillStyle g s"
  by (simp add: set_fillStyle_def)

lemma line_draw_indep:
  assumes "f \<noteq> []" and "has_canvas s"
  shows "line_draw f opts (s\<lparr>raster := r, fillStyle := st\<rparr>) = line_draw f opts s"
proof -
  note c = clearRect_raster_fillStyle
  have f1: "fold (line_bin f opts h m sp) js (t\<lparr>fillStyle := st\<rparr>) =
            (fold (line_bin f opts h m sp) js t)\<lparr>fillStyle := st\<rparr>" for h m sp js t
    by (rule fold_commute_upd) (rule line_bin_fillStyle)
  have f2: "fold (line_peak_bin h sp) js (t\<lparr>fillStyle := st\<rparr>) =
            (fold (line_peak_bin h sp) js t)\<lparr>fillStyle := st\<rparr>" for h sp js t
    by (rule fold_commute_upd) (rule line_peak_bin_fillStyle)
  show ?thesis
    using assms
    by (simp add: line_draw_def Let_def c init_peaks_fillStyle emit_fillStyle f1 f2
        set_fillStyle_override)
qed


lemma bars_bin_frame_fields:
  "has_canvas (bars_bin f opts h m i s) = has_canvas s"
  "canvas_width (bars_bin f opts h m i s) = canvas_width s"
  "canvas_height (bars_bin f opts h m i s) = canvas_height s"
  by (simp_all add: bars_bin_def Let_def)

lemma line_bin_frame_fields:
  "has_canvas (line_bin f opts h m sp i s) = has_canvas s"
  "canvas_width (line_bin f opts h m sp i s) = canvas_width s"
  "canvas_height (line_bin f opts h m sp i s) = canvas_height s"
  by (simp_all add: line_bin_def Let_def)

lemma bars_draw_frame_fields:
  "has_canvas (bars_draw f opts s) = has_canvas s"
  "canvas_width (bars_draw f opts s) = canvas_width s"
  "canvas_height (bars_draw f opts s) = canvas_height s"
proof -
  have a: "has_canvas (fold (bars_bin f opts h m) js t) = has_canvas t" for h m js t
    by (rule fold_keeps) (simp add: bars_bin_frame_fields)
  have b: "canvas_width (fold (bars_bin f opts h m) js t) = canvas_width t" for h m js t
    by (rule fold_keeps) (simp add: bars_bin_frame_fields)
  have c: "canvas_height (fold (bars_bin f opts h m) js t) = canvas_height t" for h m js t
    by (rule fold_keeps) (simp add: bars_bin_frame_fields)
  show "has_canvas (bars_draw f opts s) = has_canvas s"
    by (simp add: bars_draw_def Let_def a)
  show "canvas_width (bars_draw f opts s) = canvas_width s"
    by (simp add: bars_draw_def Let_def b)
  show "canvas_height (bars_draw f opts s) = canvas_height s"
    by (simp add: bars_draw_def Let_def c)
qed

lemma line_draw_frame_fields:
  assumes "\<not> showPeaks opts"
  shows "has_canvas (line_draw f opts s) = has_canvas s"
    and "canvas_width (line_draw f opts s) = canvas_width s"
    and "canvas_height (line_draw f opts s) = canvas_height s"
proof -
  have a: "has_canvas (fold (line_bin f opts h m sp) js t) = has_canvas t" for h m sp js t
    by (rule fold_keeps) (simp add: line_bin_frame_fields)
  have b: "canvas_width (fold (line_bin f opts h m sp) js t) = canvas_width t" for h m sp js t
    by (rule fold_keeps) (simp add: line_bin_frame_fields)
  have c: "canvas_height (fold (line_bin f opts h m sp) js t) = canvas_height t" for h m sp js t
    by (rule fold_keeps) (simp add: line_bin_frame_fields)
  show "has_canvas (line_draw f opts s) = has_canvas s"
    using assms by (simp add: line_draw_def Let_def a)
  show "canvas_width (line_draw f opts s) = canvas_width s"
    using assms by (simp add: line_draw_def Let_def b)
  show "canvas_height (line_draw f opts s) = canvas_height s"
    using assms by (simp add: line_draw_def Let_def c)
qed

text \<open>
  With peaks off and the bin count unchanged, a draw changes nothing of the state but
  the raster and the fill style.
\<close>

lemma bars_draw_off_shape:
  assumes "\<not> showPeaks opts" and "f = [] \<or> length f = length (peakValues s)"
  shows "bars_draw f opts s =
         s\<lparr>raster := raster (bars_draw f opts s), fillStyle := fillStyle (bars_draw f opts s)\<rparr>"
  using bars_draw_off_peaks [OF assms] bars_draw_frame_fields [of f opts s]
  by (intro vis_state.equality) simp_all

lemma line_draw_off_shape:
  assumes "\<not> showPeaks opts" and "f = [] \<or> length f = length (peakValues s)"
  shows "line_draw f opts s =
         s\<lparr>raster := raster (line_draw f opts s), fillStyle := fillStyle (line_draw f opts s)\<rparr>"
  using line_draw_off_peaks [OF assms] line_draw_frame_fields [OF assms(1), of f s]
  by (intro vis_state.equality) simp_all


lemma bars_draws_off_shape:
  assumes "\<not> showPeaks opts"
    and "\<forall>f\<in>set frames. f = [] \<or> length f = length (peakValues s)"
  shows "\<exists>r st. fold (\<lambda>f. bars_draw f opts) frames s = s\<lparr>raster := r, fillStyle := st\<rparr>"
  using assms(2)
proof (induction frames rule: rev_induct)
  case Nil
  have "fold (\<lambda>f. bars_draw f opts) [] s = s\<lparr>raster := raster s, fillStyle := fillStyle s\<rparr>"
    by simp
  then show ?case by blast
next
  case (snoc f frames)
  then obtain r st where
    eq: "fold (\<lambda>f. bars_draw f opts) frames s = s\<lparr>raster := r, fillStyle := st\<rparr>"
    by auto
  let ?t = "s\<lparr>raster := r, fillStyle := st\<rparr>"
  have "f = [] \<or> length f = length (peakValues ?t)"
    using snoc.prems by simp
  from bars_draw_off_shape [OF assms(1) this]
  have "bars_draw f opts ?t =
        s\<lparr>raster := raster (bars_draw f opts ?t), fillStyle := fillStyle (bars_draw f opts ?t)\<rparr>"
    by simp
  moreover have "fold (\<lambda>f. bars_draw f opts) (frames @ [f]) s = bars_draw f opts ?t"
    by (simp add: eq)
  ultimately have "fold (\<lambda>f. bars_draw f opts) (frames @ [f]) s =
        s\<lparr>raster := raster (bars_draw f opts ?t), fillStyle := fillStyle (bars_draw f opts ?t)\<rparr>"
    by simp
  then show ?case by blast
qed

lemma line_draws_off_shape:
  assumes "\<not> showPeaks opts"
    and "\<forall>f\<in>set frames. f = [] \<or> length f = length (peakValues s)"
  shows "\<exists>r st. fold (\<lambda>f. line_draw f opts) frames s = s\<lparr>raster := r, fillStyle := st\<rparr>"
  using assms(2)
proof (induction frames rule: rev_induct)
  case Nil
  have "fold (\<lambda>f. line_draw f opts) [] s = s\<lparr>raster := raster s, fillStyle := fillStyle s\<rparr>"
    by simp
  then show ?case by blast
next
  case (snoc f frames)
  then obtain r st where
    eq: "fold (\<lambda>f. line_draw f opts) frames s = s\<lparr>raster := r, fillStyle := st\<rparr>"
    by auto
  let ?t = "s\<lparr>raster := r, fillStyle := st\<rparr>"
  have "f = [] \<or> length f = length (peakValues ?t)"
    using snoc.prems by simp
  from line_draw_off_shape [OF assms(1) this]
  have "line_draw f opts ?t =
        s\<lparr>raster := raster (line_draw f opts ?t), fillStyle := fillStyle (line_draw f opts ?t)\<rparr>"
    by simp
  moreover have "fold (\<lambda>f. line_draw f opts) (frames @ [f]) s = line_draw f opts ?t"
    by (simp add: eq)
  ultimately have "fold (\<lambda>f. line_draw f opts) (frames @ [f]) s =
        s\<lparr>raster := raster (line_draw f opts ?t), fillStyle := fillStyle (line_draw f opts ?t)\<rparr>"
    by simp
  then show ?case by blast
qed

lemma init_peaks_clear_idem:
  "init_peaks n (clearRect (init_peaks n s)) = init_peaks n (clearRect s)"
  by (simp add: init_peaks_def clearRect_def)

lemma bars_draw_init:
  "has_canvas s \<and> f \<noteq> [] \<Longrightarrow> bars_draw f opts (init_peaks (length f) s) = bars_draw f opts s"
  by (simp add: bars_draw_def Let_def init_peaks_clear_idem)

lemma line_draw_init:
  "has_canvas s \<and> f \<noteq> [] \<Longrightarrow> line_draw f opts (init_peaks (length f) s) = line_draw f opts s"
  by (simp add: line_draw_def Let_def init_peaks_clear_idem)

lemma bars_draw_off_idem:
  assumes "\<not> showPeaks opts"
  shows "bars_draw f opts (bars_draw f opts s) = bars_draw f opts s"
proof (cases "has_canvas s \<and> f \<noteq> []")
  case False
  then show ?thesis by (auto simp: bars_draw_def)
next
  case True
  let ?s1 = "init_peaks (length f) s"
  let ?d = "bars_draw f opts ?s1"
  have len: "f = [] \<or> length f = length (peakValues ?s1)" by simp
  have "?d = ?s1\<lparr>raster := raster ?d, fillStyle := fillStyle ?d\<rparr>"
    using assms len by (rule bars_draw_off_shape)
  then have "bars_draw f opts ?d = bars_draw f opts (?s1\<lparr>raster := raster ?d, fillStyle := fillStyle ?d\<rparr>)"
    by simp
  also have "\<dots> = ?d"
    using True by (intro bars_draw_indep) simp_all
  finally show ?thesis by (simp add: bars_draw_init [OF True])
qed

lemma line_draw_off_idem:
  assumes "\<not> showPeaks opts"
  shows "line_draw f opts (line_draw f opts s) = line_draw f opts s"
proof (cases "has_canvas s \<and> f \<noteq> []")
  case False
  then show ?thesis by (auto simp: line_draw_def)
next
  case True
  let ?s1 = "init_peaks (length f) s"
  let ?d = "line_draw f opts ?s1"
  have len: "f = [] \<or> length f = length (peakValues ?s1)" by simp
  have "?d = ?s1\<lparr>raster := raster ?d, fillStyle := fillStyle ?d\<rparr>"
    using assms len by (rule line_draw_off_shape)
  then have "line_draw f opts ?d = line_draw f opts (?s1\<lparr>raster := raster ?d, fillStyle := fillStyle ?d\<rparr>)"
    by simp
  also have "\<dots> = ?d"
    using True by (intro line_draw_indep) simp_all
  finally show ?thesis by (simp add: line_draw_init [OF True])
qed

text \<open>
  C9 (as amended). With \<open>showPeaks\<close> off, drawing any number of frames that are empty
  or have the bin count of the stored arrays, with the Bars or the Line renderer, leaves
  the peak values and the hold counters exactly as they were: they are neither decayed
  nor reset. So the first draw after peaks are switched on again starts from the values
  stored when they were switched off: on a mounted component it is the draw that the
  state at that moment would have given. And for every frame \<open>f\<close> and state \<open>t\<close>, one
  draw with \<open>showPeaks\<close> off changes the two arrays in one case only: the component is
  mounted, \<open>f\<close> is not empty and its bin count is not the length of the stored arrays;
  then both arrays are made anew with the bin count of \<open>f\<close>, all zero.
\<close>

theorem peaks_off_state_untouched:
  assumes "\<not> showPeaks off"
    and "\<forall>f\<in>set frames. f = [] \<or> length f = length (peakValues s)"
  shows "peakValues (fold (\<lambda>f. bars_draw f off) frames s) = peakValues s
       \<and> peakHoldFrames (fold (\<lambda>f. bars_draw f off) frames s) = peakHoldFrames s
       \<and> peakValues (fold (\<lambda>f. line_draw f off) frames s) = peakValues s
       \<and> peakHoldFrames (fold (\<lambda>f. line_draw f off) frames s) = peakHoldFrames s
       \<and> (has_canvas s \<and> g \<noteq> [] \<longrightarrow>
            bars_draw g on (fold (\<lambda>f. bars_draw f off) frames s) = bars_draw g on s
          \<and> line_draw g on (fold (\<lambda>f. line_draw f off) frames s) = line_draw g on s)
       \<and> peakValues (bars_draw f off t) =
           (if has_canvas t \<and> f \<noteq> [] \<and> length (peakValues t) \<noteq> length f
            then replicate (length f) (Fin 0) else peakValues t)
       \<and> peakHoldFrames (bars_draw f off t) =
           (if has_canvas t \<and> f \<noteq> [] \<and> length (peakValues t) \<noteq> length f
            then replicate (length f) 0 else peakHoldFrames t)
       \<and> peakValues (line_draw f off t) =
           (if has_canvas t \<and> f \<noteq> [] \<and> length (peakValues t) \<noteq> length f
            then replicate (length f) (Fin 0) else peakValues t)
       \<and> peakHoldFrames (line_draw f off t) =
           (if has_canvas t \<and> f \<noteq> [] \<and> length (peakValues t) \<noteq> length f
            then replicate (length f) 0 else peakHoldFrames t)"
proof -
  obtain r st where b: "fold (\<lambda>f. bars_draw f off) frames s = s\<lparr>raster := r, fillStyle := st\<rparr>"
    using bars_draws_off_shape [OF assms(1,2)] by auto
  obtain r' st' where l: "fold (\<lambda>f. line_draw f off) frames s = s\<lparr>raster := r', fillStyle := st'\<rparr>"
    using line_draws_off_shape [OF assms(1,2)] by auto
  have "bars_draw g on (s\<lparr>raster := r, fillStyle := st\<rparr>) = bars_draw g on s"
    if "has_canvas s \<and> g \<noteq> []"
    using that by (intro bars_draw_indep) simp_all
  moreover have "line_draw g on (s\<lparr>raster := r', fillStyle := st'\<rparr>) = line_draw g on s"
    if "has_canvas s \<and> g \<noteq> []"
    using that by (intro line_draw_indep) simp_all
  ultimately have many:
    "peakValues (fold (\<lambda>f. bars_draw f off) frames s) = peakValues s
       \<and> peakHoldFrames (fold (\<lambda>f. bars_draw f off) frames s) = peakHoldFrames s
       \<and> peakValues (fold (\<lambda>f. line_draw f off) frames s) = peakValues s
       \<and> peakHoldFrames (fold (\<lambda>f. line_draw f off) frames s) = peakHoldFrames s
       \<and> (has_canvas s \<and> g \<noteq> [] \<longrightarrow>
            bars_draw g on (fold (\<lambda>f. bars_draw f off) frames s) = bars_draw g on s
          \<and> line_draw g on (fold (\<lambda>f. line_draw f off) frames s) = line_draw g on s)"
    by (simp add: b l)
  from many bars_draw_off_arrays [OF assms(1), of f t] line_draw_off_arrays [OF assms(1), of f t]
  show ?thesis by blast
qed

theorem peaks_off_state_untouched_witness:
  "peakValues (fold (\<lambda>f. bars_draw f peaks_off) [[Fin 1], [], [Fin 0]] (bars_held 100 0))
     = [Fin 100]
   \<and> peakHoldFrames (fold (\<lambda>f. bars_draw f peaks_off) [[Fin 1], [], [Fin 0]] (bars_held 100 0))
     = [0]
   \<and> peakValues (fold (\<lambda>f. line_draw f peaks_off) [[Fin 1], [], [Fin 0]] (bars_held 100 0))
     = [Fin 100]
   \<and> peakHoldFrames (fold (\<lambda>f. line_draw f peaks_off) [[Fin 1], [], [Fin 0]] (bars_held 100 0))
     = [0]
   \<and> bars_draw [Fin 1] peaks_on
        (fold (\<lambda>f. bars_draw f peaks_off) [[Fin 1], [], [Fin 0]] (bars_held 100 0))
     = bars_draw [Fin 1] peaks_on (bars_held 100 0)
   \<and> line_draw [Fin 1] peaks_on
        (fold (\<lambda>f. line_draw f peaks_off) [[Fin 1], [], [Fin 0]] (bars_held 100 0))
     = line_draw [Fin 1] peaks_on (bars_held 100 0)"
proof -
  have h1: "\<not> showPeaks peaks_off" by (simp add: peaks_off_def)
  have h2: "\<forall>f\<in>set [[Fin 1], [], [Fin 0]]. f = [] \<or> length f = length (peakValues (bars_held 100 0))"
    by (simp add: bars_held_def)
  have h3: "has_canvas (bars_held 100 0) \<and> [Fin 1] \<noteq> []" by (simp add: bars_held_def)
  have pv: "peakValues (bars_held 100 0) = [Fin 100]" by (simp add: bars_held_def)
  have ph: "peakHoldFrames (bars_held 100 0) = [0]" by (simp add: bars_held_def)
  from peaks_off_state_untouched [OF h1 h2, where g = "[Fin 1]" and on = peaks_on] h3
  show ?thesis
    unfolding pv ph by blast
qed

text \<open>
  C9 (as stated) fails: the claim speaks of any number of drawn frames and says the state
  is never reset, but the test that remakes the arrays stands outside the
  \<open>showPeaks\<close> block of both \<^verbatim>\<open>draw\<close> functions. A component holding the peak 100 with
  30 frames left to hold, for one bin, draws a frame of two bins with \<open>showPeaks\<close> off:
  both arrays are all zero afterwards, in the Bars and in the Line renderer, and a later
  frame of one bin finds the peak 0, not 100.
\<close>

theorem peaks_off_bin_count_change_resets:
  "peakValues (bars_held 100 30) = [Fin 100] \<and> peakHoldFrames (bars_held 100 30) = [30]
   \<and> peakValues (bars_draw [Fin 1, Fin 1] peaks_off (bars_held 100 30)) = [Fin 0, Fin 0]
   \<and> peakHoldFrames (bars_draw [Fin 1, Fin 1] peaks_off (bars_held 100 30)) = [0, 0]
   \<and> peakValues (line_draw [Fin 1, Fin 1] peaks_off (bars_held 100 30)) = [Fin 0, Fin 0]
   \<and> peakHoldFrames (line_draw [Fin 1, Fin 1] peaks_off (bars_held 100 30)) = [0, 0]
   \<and> peakValues (bars_draw [Fin 1] peaks_off
        (bars_draw [Fin 1, Fin 1] peaks_off (bars_held 100 30))) = [Fin 0]
   \<and> peakValues (line_draw [Fin 1] peaks_off
        (line_draw [Fin 1, Fin 1] peaks_off (bars_held 100 30))) = [Fin 0]"
proof -
  have o: "\<not> showPeaks peaks_off" by (simp add: peaks_off_def)
  have c: "has_canvas (bars_draw f peaks_off s) = has_canvas s" for f s
    by (rule bars_draw_frame_fields(1))
  have d: "has_canvas (line_draw f peaks_off s) = has_canvas s" for f s
    by (rule line_draw_frame_fields(1) [OF o])
  show ?thesis
    by (simp add: bars_draw_off_arrays [OF o] line_draw_off_arrays [OF o] c d bars_held_def
        numeral_2_eq_2)
qed

text \<open>
  C1 (as amended). With \<open>showPeaks\<close> off, drawing the same frame a second time gives the
  state, and so the raster, that the first draw gave, for the Bars and for the Line
  renderer. (With \<open>showPeaks\<close> on every draw advances the peak tracker by one tick, and
  the peak markers can move between two draws of the same frame.)
\<close>

theorem draw_idempotent_peaks_off:
  assumes "\<not> showPeaks opts"
  shows "bars_draw f opts (bars_draw f opts s) = bars_draw f opts s
       \<and> raster (bars_draw f opts (bars_draw f opts s)) = raster (bars_draw f opts s)
       \<and> line_draw f opts (line_draw f opts s) = line_draw f opts s
       \<and> raster (line_draw f opts (line_draw f opts s)) = raster (line_draw f opts s)"
  using bars_draw_off_idem [OF assms, of f s] line_draw_off_idem [OF assms, of f s]
  by simp

theorem draw_idempotent_peaks_off_witness:
  "bars_draw [Fin 1] peaks_off (bars_draw [Fin 1] peaks_off bars_fresh)
     = bars_draw [Fin 1] peaks_off bars_fresh
   \<and> raster (bars_draw [Fin 1] peaks_off (bars_draw [Fin 1] peaks_off bars_fresh))
     = raster (bars_draw [Fin 1] peaks_off bars_fresh)
   \<and> line_draw [Fin 1] peaks_off (line_draw [Fin 1] peaks_off bars_fresh)
     = line_draw [Fin 1] peaks_off bars_fresh
   \<and> raster (line_draw [Fin 1] peaks_off (line_draw [Fin 1] peaks_off bars_fresh))
     = raster (line_draw [Fin 1] peaks_off bars_fresh)"
proof -
  have h: "\<not> showPeaks peaks_off" by (simp add: peaks_off_def)
  show ?thesis by (rule draw_idempotent_peaks_off [OF h])
qed

lemmas bars_eval = bars_draw_def bars_bin_def track_peak_def init_peaks_def peak_update_def
  clearRect_def set_fillStyle_def emit_def fillRect_def num_def
  js_sub_def js_gt_def js_max_def js_max_list_def js_nth_def
  Let_def PEAK_HOLD_TIME_def PEAK_FALL_SPEED_def peaks_on_def

lemma bars_first_draw: "bars_draw [Fin 1] peaks_on bars_fresh = bars_held 100 30"
  by (simp add: bars_eval bars_fresh_def bars_held_def)

lemma bars_hold_draw: "bars_draw [Fin 1] peaks_on (bars_held 100 (Suc k)) = bars_held 100 k"
  by (simp add: bars_eval bars_held_def)

lemma bars_decay_draw: "bars_draw [Fin 1] peaks_on (bars_held 100 0) = bars_held 80 0"
  by (simp add: bars_eval bars_held_def)

lemma bars_rise_draw: "bars_draw [Fin 1] peaks_on (bars_held 80 0) = bars_held 100 30"
  by (simp add: bars_eval bars_held_def)

lemma bars_draws_hold:
  "n \<le> 30 \<Longrightarrow> (bars_draw [Fin 1] peaks_on ^^ Suc n) bars_fresh = bars_held 100 (30 - n)"
proof (induction n)
  case 0
  show ?case by (simp add: bars_first_draw)
next
  case (Suc n)
  then have k: "30 - n = Suc (30 - Suc n)" by simp
  have "(bars_draw [Fin 1] peaks_on ^^ Suc (Suc n)) bars_fresh =
        bars_draw [Fin 1] peaks_on ((bars_draw [Fin 1] peaks_on ^^ Suc n) bars_fresh)"
    by simp
  also have "\<dots> = bars_draw [Fin 1] peaks_on (bars_held 100 (Suc (30 - Suc n)))"
    using Suc k by simp
  also have "\<dots> = bars_held 100 (30 - Suc n)"
    by (rule bars_hold_draw)
  finally show ?case .
qed

lemma bars_after_31: "(bars_draw [Fin 1] peaks_on ^^ 31) bars_fresh = bars_held 100 0"
proof -
  have "(31::nat) = Suc 30" by simp
  then show ?thesis using bars_draws_hold [of 30] by simp
qed

text \<open>
  C1 (as stated) fails with \<open>showPeaks\<close> on. The Bars renderer draws the one-bin frame
  \<open>[1]\<close> 31 times from the fresh state: the peak is 100 and its hold counter has run
  down to 0. The next draw of the same frame lets the peak fall to 80 and the draw after
  that raises it to 100 again, so the peak marker is painted at a different height in
  two consecutive draws of the same frame with the same options.
\<close>

theorem repeated_draw_changes_raster:
  "raster (bars_draw [Fin 1] peaks_on
             (bars_draw [Fin 1] peaks_on ((bars_draw [Fin 1] peaks_on ^^ 31) bars_fresh)))
   \<noteq> raster (bars_draw [Fin 1] peaks_on ((bars_draw [Fin 1] peaks_on ^^ 31) bars_fresh))"
proof -
  have a: "bars_draw [Fin 1] peaks_on ((bars_draw [Fin 1] peaks_on ^^ 31) bars_fresh)
           = bars_held 80 0"
    by (simp only: bars_after_31 bars_decay_draw)
  have b: "bars_draw [Fin 1] peaks_on (bars_held 80 0) = bars_held 100 30"
    by (rule bars_rise_draw)
  have "raster (bars_held 100 30) \<noteq> raster (bars_held 80 0)"
    by (simp add: bars_held_def)
  then show ?thesis unfolding a b .
qed

text \<open>
  C10. For a frame of exactly one bin the Line renderer divides the width by
  \<open>dataLength - 1 = 0\<close>: the point spacing is not a finite number (Infinity, or NaN on a
  canvas of width 0), and the x coordinate of the only point, \<open>0 * pointSpacing\<close>, is
  NaN. The draw is not skipped: the guard returns early for the empty frame only, and
  the one-bin draw issues \<^verbatim>\<open>moveTo(NaN, y)\<close>.
\<close>

theorem line_single_bin_nonfinite:
  assumes "has_canvas s"
  shows "js_sub (num (length [v])) (Fin 1) = Fin 0
       \<and> \<not> is_fin (line_pointSpacing (canvas_width s) (length [v]))
       \<and> raster (line_draw [v] opts s) ! 1 =
           MoveTo NaN (js_sub (num (canvas_height s))
             (js_mul (js_div v (js_max v (Fin 1))) (num (canvas_height s))))
       \<and> line_draw [] opts s = s"
proof -
  have z: "js_sub (num (length [v])) (Fin 1) = Fin 0"
    by (simp add: js_sub_def num_def)
  have n: "\<not> is_fin (line_pointSpacing (canvas_width s) (length [v]))"
    by (simp add: line_pointSpacing_def js_sub_def num_def inf_of_sign_def)
  have x: "js_mul (num 0) (line_pointSpacing (canvas_width s) (length [v])) = NaN"
    by (simp add: line_pointSpacing_def js_sub_def num_def inf_of_sign_def)
  have e: "line_draw [] opts s = s"
    by (simp add: line_draw_def)
  have m: "raster (line_draw [v] opts s) ! 1 =
           MoveTo NaN (js_sub (num (canvas_height s))
             (js_mul (js_div v (js_max v (Fin 1))) (num (canvas_height s))))"
    using assms x
    by (simp add: line_draw_def line_bin_def line_peak_bin_def Let_def emit_def fill_def
        set_fillStyle_def clearRect_def init_peaks_def track_peak_def js_max_list_def js_nth_def)
  from z n m e show ?thesis by simp
qed

theorem line_single_bin_nonfinite_witness:
  "line_pointSpacing 10 1 = PInf
   \<and> raster (line_draw [Fin 1] peaks_off bars_fresh) ! 1 = MoveTo NaN (Fin 0)
   \<and> line_draw [] peaks_off bars_fresh = bars_fresh"
proof -
  have h: "has_canvas bars_fresh" by (simp add: bars_fresh_def)
  have "line_pointSpacing 10 1 = PInf"
    by (simp add: line_pointSpacing_def js_sub_def num_def inf_of_sign_def)
  then show ?thesis
    using line_single_bin_nonfinite [OF h, of "Fin 1" peaks_off]
    by (simp add: bars_fresh_def js_sub_def js_max_def num_def)
qed

section \<open>Properties of the state manager\<close>

lemma paused_callback: "isPaused s \<Longrightarrow> interval_callback out s = s"
  by (simp add: interval_callback_def)

lemma paused_timer_fires: "isPaused s \<Longrightarrow> timer_fires h out s = s"
  by (simp add: timer_fires_def paused_callback)

lemma paused_ticks: "isPaused s \<Longrightarrow> fold (timer_fires h) outputs s = s"
  by (induction outputs) (simp_all add: paused_timer_fires)

lemma sim_canvas_ops [simp]:
  "fftHistory (emit k s) = fftHistory (s :: sim_state)"
  "fftHistory (set_fillStyle st s) = fftHistory s"
  "fftHistory (fillRect x y w hh s) = fftHistory s"
  "fftHistory (fill s) = fftHistory s"
  "fftHistory (clearRect s) = fftHistory s"
  by (simp_all add: emit_def set_fillStyle_def fillRect_def fill_def clearRect_def)

lemma drawSpectrogram_history:
  "fftHistory (drawSpectrogram fl hist s) = fftHistory (s :: sim_state)"
proof -
  have inner: "fftHistory (fold (\<lambda>i c. fillRect (x i) (y i) w hh (set_fillStyle (col i) c)) js t)
               = fftHistory t" for x y w hh col js and t :: sim_state
    by (rule fold_keeps) simp
  show ?thesis
    unfolding drawSpectrogram_def Let_def
    by (rule fold_keeps) (simp add: inner)
qed

lemma freq_bar_history: "fftHistory (freq_bar m sp mx i s) = fftHistory (s :: sim_state)"
  by (simp add: freq_bar_def Let_def)

lemma drawFrequencyBars_history:
  "fftHistory (drawFrequencyBars fl sp m s) = fftHistory (s :: sim_state)"
  unfolding drawFrequencyBars_def Let_def
  by (rule fold_keeps) (simp add: freq_bar_history)

lemma drawLineGraph_history:
  "fftHistory (drawLineGraph fl sp m s) = fftHistory (s :: sim_state)"
proof -
  have a: "fftHistory (fold (\<lambda>i. emit (LineTo (gx i) (gy i))) js t) = fftHistory t"
    for gx gy js and t :: sim_state
    by (rule fold_keeps) simp
  have b: "fftHistory (fold (\<lambda>i c. if P i then fill (emit (Arc (gx i) (gy i)) (emit BeginPath c)) else c) js t)
           = fftHistory t" for P gx gy js and t :: sim_state
    by (rule fold_keeps) simp
  show ?thesis
    by (simp add: drawLineGraph_def Let_def a b)
qed

lemma drawVisualization_history:
  "fftHistory (drawVisualization fls ty sp hist m s) = fftHistory (s :: sim_state)"
  by (simp add: drawVisualization_def Let_def drawSpectrogram_history
      drawFrequencyBars_history drawLineGraph_history)

lemma processFFTData_history:
  "fftHistory (processFFTData out s) =
     history_push MAX_HISTORY (fftHistory s) (fft_magnitudes (logScaleChecked s) out)"
  by (simp add: processFFTData_def Let_def drawVisualization_history)

lemma running_tick_pushes:
  assumes "h \<in> set (timers s)" and "\<not> isPaused s"
  shows "fftHistory (timer_fires h out s) =
     history_push MAX_HISTORY (fftHistory s) (fft_magnitudes (logScaleChecked s) out)"
  using assms by (simp add: timer_fires_def interval_callback_def processFFTData_history)

text \<open>
  C8. In the paused state of the simulated analyzer (the interval timer \<open>h\<close> of the
  state manager is set, \<open>_isPaused\<close> is true) the timer may fire any number of times,
  whatever FFT output would be generated: nothing is processed or drawn, and the whole
  state, the history and the raster with it, stays as it was. Pausing and resuming
  (\<open>togglePause\<close>, from any state \<open>r\<close>) leave the timer handle, the set timers and the
  handle counter alone: the timer is neither cancelled nor started again; after the
  resume the next firing processes its FFT output.
\<close>

theorem paused_keeps_timer_skips_frames:
  assumes "interval s = Some h" and "h \<in> set (timers s)" and "isPaused s"
  shows "fold (timer_fires h) outputs s = s
       \<and> isRunning s
       \<and> interval (togglePause r) = interval r
       \<and> timers (togglePause r) = timers r
       \<and> next_handle (togglePause r) = next_handle r
       \<and> \<not> isPaused (togglePause s)
       \<and> timer_fires h out (togglePause s) = processFFTData out (togglePause s)"
  using assms paused_ticks [of s h outputs]
  by (simp add: isRunning_def togglePause_def timer_fires_def interval_callback_def)

theorem paused_keeps_timer_skips_frames_witness:
  "interval (togglePause (start sim_idle)) = Some 1
   \<and> timers (togglePause (start sim_idle)) = [1]
   \<and> isPaused (togglePause (start sim_idle))
   \<and> fold (timer_fires 1) [[Fin 3, Fin 4], []] (togglePause (start sim_idle))
       = togglePause (start sim_idle)
   \<and> timer_fires 1 [Fin 3, Fin 4] (togglePause (togglePause (start sim_idle)))
       = processFFTData [Fin 3, Fin 4] (togglePause (togglePause (start sim_idle)))"
proof -
  have a: "interval (togglePause (start sim_idle)) = Some 1"
    by (simp add: togglePause_def start_def isRunning_def sim_idle_def)
  have b: "1 \<in> set (timers (togglePause (start sim_idle)))"
    by (simp add: togglePause_def start_def isRunning_def sim_idle_def)
  have c: "isPaused (togglePause (start sim_idle))"
    by (simp add: togglePause_def start_def isRunning_def sim_idle_def)
  have d: "timers (togglePause (start sim_idle)) = [1]"
    by (simp add: togglePause_def start_def isRunning_def sim_idle_def)
  from paused_keeps_timer_skips_frames [OF a b c, of "[[Fin 3, Fin 4], []]" sim_idle "[Fin 3, Fin 4]"]
  show ?thesis using a c d by simp
qed

section \<open>Properties of the magnitude processor\<close>






















section \<open>Properties of the bars renderers on a silent frame\<close>

lemma fold_upt_invariant:
  assumes "P 0 c0" and "\<And>i c. i < n \<Longrightarrow> P i c \<Longrightarrow> P (Suc i) (step i c)"
  shows "P n (fold step [0..<n] c0)"
proof -
  have "k \<le> n \<Longrightarrow> P k (fold step [0..<k] c0)" for k
  proof (induction k)
    case 0
    show ?case using assms(1) by simp
  next
    case (Suc k)
    then have "P k (fold step [0..<k] c0)" and "k < n" by simp_all
    then have "P (Suc k) (step k (fold step [0..<k] c0))" using assms(2) by blast
    then show ?case by simp
  qed
  then show ?thesis by simp
qed

lemma js_max_list_zeros: "js_max_list (replicate n (Fin 0)) (Fin 1) = Fin 1"
  by (induction n) (simp_all add: js_max_list_def js_max_def)

lemma frame_max_zeros: "frame_max (replicate n (Fin 0)) (Fin 0) = Fin 0"
  by (induction n) (simp_all add: frame_max_def js_max_def)

lemma getColor_zero: "d \<noteq> 0 \<Longrightarrow> getColor (Fin 0) (Fin d) = Rgb (Fin 0) (Fin 0) (Fin 255)"
  by (simp add: getColor_def Let_def js_max_def js_min_def)

lemma bars_bin_zero_step:
  assumes "i < n" and "bars_done i s"
  shows "bars_done (Suc i) (bars_bin (replicate n (Fin 0)) opts (num hh) (Fin 1) i s)"
  using assms
  by (simp add: bars_done_def bars_only_def bars_bin_def Let_def fillRect_def emit_def
      set_fillStyle_def track_peak_def num_def js_nth_def js_max_def js_sub_def)

lemma bars_draw_zero:
  assumes "0 < n" and "has_canvas s"
  shows "bars_done n (bars_draw (replicate n (Fin 0)) opts s)"
proof -
  have "bars_done n (fold (bars_bin (replicate n (Fin 0)) opts (num (canvas_height s)) (Fin 1))
          [0..<n] (init_peaks n (clearRect s)))"
  proof (rule fold_upt_invariant [where P = bars_done])
    show "bars_done 0 (init_peaks n (clearRect s))"
      by (simp add: bars_done_def bars_only_def init_peaks_def clearRect_def)
  qed (rule bars_bin_zero_step)
  then show ?thesis
    using assms by (simp add: bars_draw_def Let_def js_max_list_zeros)
qed

lemma freq_bar_zero_step:
  assumes "i < n" and "d \<noteq> 0" and "bars_done i c"
  shows "bars_done (Suc i) (freq_bar (replicate n (Fin 0)) sp (Fin d) i c)"
proof -
  have nopeak: "\<not> (sp \<and> i > 0 \<and> i < n - 1 \<and> js_gt (replicate n (Fin 0) ! i) (replicate n (Fin 0) ! (i - 1))
      \<and> js_gt (replicate n (Fin 0) ! i) (replicate n (Fin 0) ! (i + 1)))"
    using assms(1) by (simp add: js_gt_def)
  show ?thesis
    using assms
    by (simp add: bars_done_def bars_only_def freq_bar_def Let_def fillRect_def emit_def
      set_fillStyle_def num_def js_sub_def getColor_zero js_gt_def)
qed

lemma drawFrequencyBars_zero:
  assumes "0 < n" and "0 < d"
  shows "bars_done n (drawFrequencyBars (Some (Fin d)) sp (replicate n (Fin 0)) (clearRect c))"
proof -
  have m: "floor_max (Some (Fin d)) (frame_max (replicate n (Fin 0)) (Fin 0)) = Fin d"
    using assms(2) by (simp add: floor_max_def frame_max_zeros js_max_def)
  have d0: "d \<noteq> 0" using assms(2) by simp
  have "bars_done n (fold (freq_bar (replicate n (Fin 0)) sp (Fin d)) [0..<n] (clearRect c))"
  proof (rule fold_upt_invariant [where P = bars_done])
    show "bars_done 0 (clearRect c)"
      by (simp add: bars_done_def bars_only_def clearRect_def)
    show "bars_done (Suc i) (freq_bar (replicate n (Fin 0)) sp (Fin d) i c')"
      if "i < n" and "bars_done i c'" for i c'
      using that(1) d0 that(2) by (rule freq_bar_zero_step)
  qed
  then show ?thesis
    by (simp add: drawFrequencyBars_def Let_def m)
qed

text \<open>
  C7 (as amended). For an all-zero frame of \<open>n > 0\<close> bins (such as \<open>[0, 0, 0]\<close>) no
  bars renderer divides by zero and each draws \<open>n\<close> bars of height 0 at finite
  coordinates: the normalization denominator is floored, to 1 in SpectrumBars.vue and in
  main.ts and to 0.1 in the simulated analyzer.
\<close>

theorem zero_frame_bars_height_zero:
  assumes "0 < n" and "has_canvas s"
  shows "js_max_list (replicate n (Fin 0)) (Fin 1) = Fin 1
       \<and> floor_max (bars_floor main_floors) (frame_max (replicate n (Fin 0)) (Fin 0)) = Fin 1
       \<and> floor_max (bars_floor sim_floors) (frame_max (replicate n (Fin 0)) (Fin 0)) = Fin (1 / 10)
       \<and> bars_done n (bars_draw (replicate n (Fin 0)) opts s)
       \<and> bars_done n (drawVisualization main_floors ''bars'' sp hist (replicate n (Fin 0)) c)
       \<and> bars_done n (drawVisualization sim_floors ''bars'' sp hist (replicate n (Fin 0)) c)"
proof -
  have a: "floor_max (bars_floor main_floors) (frame_max (replicate n (Fin 0)) (Fin 0)) = Fin 1"
    by (simp add: main_floors_def floor_max_def frame_max_zeros js_max_def)
  have b: "floor_max (bars_floor sim_floors) (frame_max (replicate n (Fin 0)) (Fin 0)) = Fin (1 / 10)"
    by (simp add: sim_floors_def floor_max_def frame_max_zeros js_max_def)
  have c: "bars_done n (drawVisualization main_floors ''bars'' sp hist (replicate n (Fin 0)) c)"
    using drawFrequencyBars_zero [OF assms(1), of 1 sp c]
    by (simp add: drawVisualization_def Let_def main_floors_def)
  have d: "bars_done n (drawVisualization sim_floors ''bars'' sp hist (replicate n (Fin 0)) c)"
    using drawFrequencyBars_zero [OF assms(1), of "1 / 10" sp c]
    by (simp add: drawVisualization_def Let_def sim_floors_def)
  from js_max_list_zeros [of n] a b bars_draw_zero [OF assms, of opts] c d
  show ?thesis by simp
qed

theorem zero_frame_bars_height_zero_witness:
  "js_max_list [Fin 0, Fin 0, Fin 0] (Fin 1) = Fin 1
   \<and> floor_max (bars_floor main_floors) (frame_max [Fin 0, Fin 0, Fin 0] (Fin 0)) = Fin 1
   \<and> bars_done 3 (bars_draw [Fin 0, Fin 0, Fin 0] peaks_on bars_fresh)
   \<and> bars_done 3 (drawVisualization main_floors ''bars'' True [] [Fin 0, Fin 0, Fin 0] sim_idle)
   \<and> bars_done 3 (drawVisualization sim_floors ''bars'' True [] [Fin 0, Fin 0, Fin 0] sim_idle)"
proof -
  have r: "replicate 3 (Fin 0) = [Fin 0, Fin 0, Fin 0]"
    by (simp add: numeral_3_eq_3)
  have n: "(0::nat) < 3" by simp
  have h: "has_canvas bars_fresh" by (simp add: bars_fresh_def)
  from zero_frame_bars_height_zero [OF n h, of peaks_on True "[]" sim_idle]
  show ?thesis unfolding r by simp
qed

text \<open>
  C7 (as stated) fails in one of the bars paths: in the simulated analyzer the
  denominator of the frame \<open>[0, 0, 0]\<close> is 0.1, which is below 1.
\<close>

theorem sim_bars_floor_is_not_one:
  "floor_max (bars_floor sim_floors) (frame_max [Fin 0, Fin 0, Fin 0] (Fin 0)) = Fin (1 / 10)
   \<and> js_lt (floor_max (bars_floor sim_floors) (frame_max [Fin 0, Fin 0, Fin 0] (Fin 0))) (Fin 1)"
  by (simp add: sim_floors_def floor_max_def frame_max_def js_max_def)

section \<open>Properties of the spectrogram\<close>




















lemma floor_log2:
  assumes "2 powr of_int e \<le> x" and "x < 2 powr (of_int e + 1)"
  shows "\<lfloor>log 2 x\<rfloor> = e"
proof -
  have x: "0 < x" using assms(1) powr_gt_zero [of 2 "of_int e"] by linarith
  have "of_int e \<le> log 2 x"
    using assms(1) x by (simp add: le_log_iff)
  moreover have "log 2 x < of_int e + 1"
    using assms(2) x by (simp add: log_less_iff)
  ultimately show ?thesis by (simp add: floor_eq_iff)
qed

text \<open>
  The rounding decides the bin: on a canvas 44 pixels high with 30 bins, row 21 reads
  bin 14, where the product in real numbers is 15; on a canvas 498 pixels high with 256
  bins, row 248 reads bin 127, not 128.
\<close>

lemma to_double_eval:
  assumes "x \<noteq> 0" and "2 powr of_int e \<le> \<bar>x\<bar>" and "\<bar>x\<bar> < 2 powr (of_int e + 1)"
  shows "to_double x =
     (if 0 \<le> e - 52 then 2 ^ nat (e - 52) else 1 / 2 ^ nat (52 - e))
       * of_int (round_half_even
           (x / (if 0 \<le> e - 52 then 2 ^ nat (e - 52) else 1 / 2 ^ nat (52 - e))))"
  using assms(1) floor_log2 [OF assms(2,3)] by (simp add: to_double_def Let_def)

lemma quotient_30_44: "to_double (real 30 / real 44) = 6141272219141585 / 2 ^ 53"
proof -
  have a: "2 powr of_int (- 1) \<le> \<bar>real 30 / real 44\<bar>"
    by (simp add: powr_minus)
  have b: "\<bar>real 30 / real 44\<bar> < 2 powr (of_int (- 1) + 1)"
    by simp
  have c: "real 30 / real 44 \<noteq> 0" by simp
  show ?thesis
    unfolding to_double_eval [OF c a b] by (simp add: round_half_even_def Let_def)
qed

lemma product_22: "to_double (real 22 * (6141272219141585 / 2 ^ 53)) = 8444249301319679 / 2 ^ 49"
proof -
  have a: "2 powr of_int 3 \<le> \<bar>real 22 * (6141272219141585 / 2 ^ 53)\<bar>"
    by simp
  have b: "\<bar>real 22 * (6141272219141585 / 2 ^ 53)\<bar> < 2 powr (of_int 3 + 1)"
    by simp
  have c: "real 22 * (6141272219141585 / 2 ^ 53) \<noteq> 0" by simp
  show ?thesis
    unfolding to_double_eval [OF c a b] by (simp add: round_half_even_def Let_def)
qed

lemma quotient_256_498: "to_double (real 256 / real 498) = 4630206845810630 / 2 ^ 53"
proof -
  have a: "2 powr of_int (- 1) \<le> \<bar>real 256 / real 498\<bar>"
    by (simp add: powr_minus)
  have b: "\<bar>real 256 / real 498\<bar> < 2 powr (of_int (- 1) + 1)"
    by simp
  have c: "real 256 / real 498 \<noteq> 0" by simp
  show ?thesis
    unfolding to_double_eval [OF c a b] by (simp add: round_half_even_def Let_def)
qed

lemma product_249: "to_double (real 249 * (4630206845810630 / 2 ^ 53)) = 9007199254740991 / 2 ^ 46"
proof -
  have a: "2 powr of_int 6 \<le> \<bar>real 249 * (4630206845810630 / 2 ^ 53)\<bar>"
    by simp
  have b: "\<bar>real 249 * (4630206845810630 / 2 ^ 53)\<bar> < 2 powr (of_int 6 + 1)"
    by simp
  have c: "real 249 * (4630206845810630 / 2 ^ 53) \<noteq> 0" by simp
  show ?thesis
    unfolding to_double_eval [OF c a b] by (simp add: round_half_even_def Let_def)
qed

lemma row_bin_rounds_below:
  "row_bin 44 30 21 = 14 \<and> \<lfloor>real (44 - 21 - 1) * (real 30 / real 44)\<rfloor> = (15::int)
   \<and> row_bin 498 256 248 = 127
   \<and> \<lfloor>real (498 - 248 - 1) * (real 256 / real 498)\<rfloor> = (128::int)"
proof -
  have "row_bin 44 30 21 = \<lfloor>to_double (real 22 * to_double (real 30 / real 44))\<rfloor>"
    by (simp add: row_bin_def)
  also have "\<dots> = \<lfloor>8444249301319679 / 2 ^ 49 :: real\<rfloor>"
    by (simp only: quotient_30_44 product_22)
  also have "\<dots> = 14" by simp
  finally have a: "row_bin 44 30 21 = 14" .
  have "row_bin 498 256 248 = \<lfloor>to_double (real 249 * to_double (real 256 / real 498))\<rfloor>"
    by (simp add: row_bin_def)
  also have "\<dots> = \<lfloor>9007199254740991 / 2 ^ 46 :: real\<rfloor>"
    by (simp only: quotient_256_498 product_249)
  also have "\<dots> = 127" by simp
  finally have b: "row_bin 498 256 248 = 127" .
  from a b show ?thesis by simp
qed









section \<open>Properties of the colour mappings\<close>

lemma getColor_ratio:
  assumes "0 \<le> r" and "r \<le> 1"
  shows "rgb_of (getColor (Fin r) (Fin 1)) =
     (if r < 1 / 5 then (Fin 0, Fin (of_int \<lfloor>1275 * r\<rfloor>), Fin 255)
      else if r < 2 / 5 then (Fin 0, Fin 255, Fin (of_int \<lfloor>510 - 1275 * r\<rfloor>))
      else if r < 3 / 5 then (Fin (of_int \<lfloor>1275 * r - 510\<rfloor>), Fin 255, Fin 0)
      else if r < 4 / 5 then (Fin 255, Fin (of_int \<lfloor>1020 - 1275 * r\<rfloor>), Fin 0)
      else (Fin 255, Fin 0, Fin (of_int \<lfloor>1275 * r - 1020\<rfloor>)))"
proof -
  have ratio: "js_min (Fin 1) (js_max (Fin 0) (js_div (Fin r) (Fin 1))) = Fin r"
    using assms by (simp add: js_min_def js_max_def)
  have e1: "255 * (r / (2 / 10)) = 1275 * r" by simp
  have e2: "255 * (1 - (r - 2 / 10) / (2 / 10)) = 510 - 1275 * r" by (simp add: field_simps)
  have e3: "255 * ((r - 4 / 10) / (2 / 10)) = 1275 * r - 510" by (simp add: field_simps)
  have e4: "255 * (1 - (r - 6 / 10) / (2 / 10)) = 1020 - 1275 * r" by (simp add: field_simps)
  have e5: "255 * ((r - 8 / 10) / (2 / 10)) = 1275 * r - 1020" by (simp add: field_simps)
  have d: "js_div (Fin x) (Fin (2 / 10)) = Fin (x / (2 / 10))" for x by simp
  have s: "js_sub (Fin x) (Fin y) = Fin (x - y)" for x y by (simp add: js_sub_def)
  have l: "js_lt (Fin r) (Fin (2 / 10)) = (r < 1 / 5)" "js_lt (Fin r) (Fin (4 / 10)) = (r < 2 / 5)"
    "js_lt (Fin r) (Fin (6 / 10)) = (r < 3 / 5)" "js_lt (Fin r) (Fin (8 / 10)) = (r < 4 / 5)"
    by simp_all
  show ?thesis
    unfolding getColor_def ratio Let_def d s l js_mul.simps js_floor.simps e1 e2 e3 e4 e5
    by simp
qed

lemma valueToColor_value:
  assumes "0 \<le> v" and "v \<le> 255"
  shows "valueToColor (Fin v) =
     (if v < 85 then (Fin 0, Fin (of_int \<lfloor>v * 3\<rfloor>), Fin 255)
      else if v < 170 then
        (Fin (of_int \<lfloor>(v - 85) * 3\<rfloor>), Fin 255, Fin (255 - of_int \<lfloor>(v - 85) * 3\<rfloor>))
      else (Fin 255, Fin (255 - of_int \<lfloor>(v - 170) * 3\<rfloor>), Fin 0))"
proof -
  have clamp: "js_min (Fin 255) (js_max (Fin 0) (Fin v)) = Fin v"
    using assms by (simp add: js_min_def js_max_def)
  have s: "js_sub (Fin x) (Fin y) = Fin (x - y)" for x y by (simp add: js_sub_def)
  show ?thesis
    unfolding valueToColor_def clamp Let_def s js_mul.simps js_floor.simps js_lt.simps
    by simp
qed


lemma floor_within_one:
  assumes "of_int c - 1 \<le> (x::real)" and "x \<le> of_int c + 1"
  shows "\<bar>of_int \<lfloor>x\<rfloor> - of_int c\<bar> \<le> (1::real)"
proof -
  have "of_int (c - 1) \<le> x" using assms(1) by simp
  then have lo: "c - 1 \<le> \<lfloor>x\<rfloor>" by (simp only: le_floor_iff)
  have "of_int \<lfloor>x\<rfloor> \<le> x" by (rule of_int_floor_le)
  with assms(2) have "of_int \<lfloor>x\<rfloor> \<le> of_int c + (1::real)" by linarith
  then have "of_int \<lfloor>x\<rfloor> \<le> (of_int (c + 1) :: real)" by simp
  then have hi: "\<lfloor>x\<rfloor> \<le> c + 1" by (simp only: of_int_le_iff)
  from lo hi have "\<bar>\<lfloor>x\<rfloor> - c\<bar> \<le> 1" by linarith
  then have "\<bar>(of_int (\<lfloor>x\<rfloor> - c) :: real)\<bar> \<le> of_int 1"
    by (simp only: of_int_abs [symmetric] of_int_le_iff)
  then show ?thesis by simp
qed

lemma near_255: "254 \<le> (x::real) \<Longrightarrow> x \<le> 256 \<Longrightarrow> \<bar>of_int \<lfloor>x\<rfloor> - 255\<bar> \<le> (1::real)"
  using floor_within_one [of 255 x] by simp

lemma near_0: "- 1 \<le> (x::real) \<Longrightarrow> x \<le> 1 \<Longrightarrow> \<bar>of_int \<lfloor>x\<rfloor>\<bar> \<le> (1::real)"
  using floor_within_one [of 0 x] by simp

lemma getColor_continuous_1:
  assumes "\<bar>r - 1 / 5\<bar> \<le> 1 / 1275"
  shows "rgb_close (rgb_of (getColor (Fin r) (Fin 1))) (rgb_of (getColor (Fin (1 / 5)) (Fin 1)))"
proof -
  have r01: "0 \<le> r" "r \<le> 1" using assms by linarith+
  have b: "rgb_of (getColor (Fin (1 / 5)) (Fin 1)) = (Fin 0, Fin 255, Fin 255)"
    by (simp add: getColor_ratio)
  show ?thesis
  proof (cases "r < 1 / 5")
    case True
    have "254 \<le> 1275 * r" and "1275 * r \<le> 256" using assms True by linarith+
    then have "\<bar>of_int \<lfloor>1275 * r\<rfloor> - 255\<bar> \<le> (1::real)" by (rule near_255)
    with True show ?thesis by (simp add: getColor_ratio r01 b)
  next
    case False
    then have lt: "r < 2 / 5" using assms by linarith
    have "254 \<le> 510 - 1275 * r" and "510 - 1275 * r \<le> 256" using assms False by linarith+
    then have "\<bar>of_int \<lfloor>510 - 1275 * r\<rfloor> - 255\<bar> \<le> (1::real)" by (rule near_255)
    with False lt show ?thesis by (simp add: getColor_ratio r01 b)
  qed
qed

lemma getColor_continuous_2:
  assumes "\<bar>r - 2 / 5\<bar> \<le> 1 / 1275"
  shows "rgb_close (rgb_of (getColor (Fin r) (Fin 1))) (rgb_of (getColor (Fin (2 / 5)) (Fin 1)))"
proof -
  have r01: "0 \<le> r" "r \<le> 1" using assms by linarith+
  have b: "rgb_of (getColor (Fin (2 / 5)) (Fin 1)) = (Fin 0, Fin 255, Fin 0)"
    by (simp add: getColor_ratio)
  show ?thesis
  proof (cases "r < 2 / 5")
    case True
    then have ge: "\<not> r < 1 / 5" using assms by linarith
    have "- 1 \<le> 510 - 1275 * r" and "510 - 1275 * r \<le> 1" using assms True by linarith+
    then have "\<bar>of_int \<lfloor>510 - 1275 * r\<rfloor>\<bar> \<le> (1::real)" by (rule near_0)
    with True ge show ?thesis by (simp add: getColor_ratio r01 b)
  next
    case False
    then have lt: "r < 3 / 5" and ge: "\<not> r < 1 / 5" using assms by linarith+
    have "- 1 \<le> 1275 * r - 510" and "1275 * r - 510 \<le> 1" using assms False by linarith+
    then have "\<bar>of_int \<lfloor>1275 * r - 510\<rfloor>\<bar> \<le> (1::real)" by (rule near_0)
    with False lt ge show ?thesis by (simp add: getColor_ratio r01 b)
  qed
qed

lemma getColor_continuous_3:
  assumes "\<bar>r - 3 / 5\<bar> \<le> 1 / 1275"
  shows "rgb_close (rgb_of (getColor (Fin r) (Fin 1))) (rgb_of (getColor (Fin (3 / 5)) (Fin 1)))"
proof -
  have r01: "0 \<le> r" "r \<le> 1" using assms by linarith+
  have b: "rgb_of (getColor (Fin (3 / 5)) (Fin 1)) = (Fin 255, Fin 255, Fin 0)"
    by (simp add: getColor_ratio)
  show ?thesis
  proof (cases "r < 3 / 5")
    case True
    then have ge: "\<not> r < 1 / 5" "\<not> r < 2 / 5" using assms by linarith+
    have "254 \<le> 1275 * r - 510" and "1275 * r - 510 \<le> 256" using assms True by linarith+
    then have "\<bar>of_int \<lfloor>1275 * r - 510\<rfloor> - 255\<bar> \<le> (1::real)" by (rule near_255)
    with True ge show ?thesis by (simp add: getColor_ratio r01 b)
  next
    case False
    then have lt: "r < 4 / 5" and ge: "\<not> r < 1 / 5" "\<not> r < 2 / 5" using assms by linarith+
    have "254 \<le> 1020 - 1275 * r" and "1020 - 1275 * r \<le> 256" using assms False by linarith+
    then have "\<bar>of_int \<lfloor>1020 - 1275 * r\<rfloor> - 255\<bar> \<le> (1::real)" by (rule near_255)
    with False lt ge show ?thesis by (simp add: getColor_ratio r01 b)
  qed
qed

lemma getColor_continuous_4:
  assumes "\<bar>r - 4 / 5\<bar> \<le> 1 / 1275"
  shows "rgb_close (rgb_of (getColor (Fin r) (Fin 1))) (rgb_of (getColor (Fin (4 / 5)) (Fin 1)))"
proof -
  have r01: "0 \<le> r" "r \<le> 1" using assms by linarith+
  have b: "rgb_of (getColor (Fin (4 / 5)) (Fin 1)) = (Fin 255, Fin 0, Fin 0)"
    by (simp add: getColor_ratio)
  show ?thesis
  proof (cases "r < 4 / 5")
    case True
    then have ge: "\<not> r < 1 / 5" "\<not> r < 2 / 5" "\<not> r < 3 / 5" using assms by linarith+
    have "- 1 \<le> 1020 - 1275 * r" and "1020 - 1275 * r \<le> 1" using assms True by linarith+
    then have "\<bar>of_int \<lfloor>1020 - 1275 * r\<rfloor>\<bar> \<le> (1::real)" by (rule near_0)
    with True ge show ?thesis by (simp add: getColor_ratio r01 b)
  next
    case False
    then have ge: "\<not> r < 1 / 5" "\<not> r < 2 / 5" "\<not> r < 3 / 5" using assms by linarith+
    have "- 1 \<le> 1275 * r - 1020" and "1275 * r - 1020 \<le> 1" using assms False by linarith+
    then have "\<bar>of_int \<lfloor>1275 * r - 1020\<rfloor>\<bar> \<le> (1::real)" by (rule near_0)
    with False ge show ?thesis by (simp add: getColor_ratio r01 b)
  qed
qed

lemma valueToColor_continuous_85:
  assumes "\<bar>v - 85\<bar> \<le> 1 / 3"
  shows "rgb_close (valueToColor (Fin v)) (valueToColor (Fin 85))"
proof -
  have v: "0 \<le> v" "v \<le> 255" using assms by linarith+
  have b: "valueToColor (Fin 85) = (Fin 0, Fin 255, Fin 255)"
    by (simp add: valueToColor_value)
  show ?thesis
  proof (cases "v < 85")
    case True
    have "254 \<le> v * 3" and "v * 3 \<le> 256" using assms True by linarith+
    then have "\<bar>of_int \<lfloor>v * 3\<rfloor> - 255\<bar> \<le> (1::real)" by (rule near_255)
    with True show ?thesis by (simp add: valueToColor_value v b)
  next
    case False
    then have lt: "v < 170" using assms by linarith
    have "- 1 \<le> (v - 85) * 3" and "(v - 85) * 3 \<le> 1"
      using assms False by (simp_all add: abs_le_iff)
    then have "\<bar>of_int \<lfloor>(v - 85) * 3\<rfloor>\<bar> \<le> (1::real)" by (rule near_0)
    with False lt show ?thesis by (simp add: valueToColor_value v b)
  qed
qed

lemma valueToColor_continuous_170:
  assumes "\<bar>v - 170\<bar> \<le> 1 / 3"
  shows "rgb_close (valueToColor (Fin v)) (valueToColor (Fin 170))"
proof -
  have v: "0 \<le> v" "v \<le> 255" using assms by linarith+
  have b: "valueToColor (Fin 170) = (Fin 255, Fin 255, Fin 0)"
    by (simp add: valueToColor_value)
  show ?thesis
  proof (cases "v < 170")
    case True
    then have ge: "\<not> v < 85" using assms by linarith
    have "254 \<le> (v - 85) * 3" and "(v - 85) * 3 \<le> 256"
      using assms True by (simp_all add: abs_le_iff)
    then have "\<bar>of_int \<lfloor>(v - 85) * 3\<rfloor> - 255\<bar> \<le> (1::real)" by (rule near_255)
    with True ge show ?thesis by (simp add: valueToColor_value v b)
  next
    case False
    then have ge: "\<not> v < 85" using assms by linarith
    have "- 1 \<le> (v - 170) * 3" and "(v - 170) * 3 \<le> 1"
      using assms False by (simp_all add: abs_le_iff)
    then have "\<bar>of_int \<lfloor>(v - 170) * 3\<rfloor>\<bar> \<le> (1::real)" by (rule near_0)
    with False ge show ?thesis by (simp add: valueToColor_value v b)
  qed
qed

lemma segment5_iff:
  "segment5 r = 0 \<longleftrightarrow> r < 1 / 5"
  "segment5 r = 1 \<longleftrightarrow> \<not> r < 1 / 5 \<and> r < 2 / 5"
  "segment5 r = 2 \<longleftrightarrow> \<not> r < 2 / 5 \<and> r < 3 / 5"
  "segment5 r = 3 \<longleftrightarrow> \<not> r < 3 / 5 \<and> r < 4 / 5"
  "segment5 r = 4 \<longleftrightarrow> \<not> r < 4 / 5"
  unfolding segment5_def by auto

lemma one_channel_changed:
  "channels_changed (x, g, b) (y, g, b) \<le> 1"
  "channels_changed (r, x, b) (r, y, b) \<le> 1"
  "channels_changed (r, g, x) (r, g, y) \<le> 1"
  by simp_all

lemma getColor_one_ramp:
  assumes "0 \<le> r1" "r1 \<le> 1" "0 \<le> r2" "r2 \<le> 1" and "segment5 r1 = segment5 r2"
  shows "channels_changed (rgb_of (getColor (Fin r1) (Fin 1))) (rgb_of (getColor (Fin r2) (Fin 1))) \<le> 1"
proof -
  note c1 = getColor_ratio [OF assms(1,2)] and c2 = getColor_ratio [OF assms(3,4)]
  consider (s0) "r1 < 1 / 5"
    | (s1) "\<not> r1 < 1 / 5" "r1 < 2 / 5"
    | (s2) "\<not> r1 < 1 / 5" "\<not> r1 < 2 / 5" "r1 < 3 / 5"
    | (s3) "\<not> r1 < 1 / 5" "\<not> r1 < 2 / 5" "\<not> r1 < 3 / 5" "r1 < 4 / 5"
    | (s4) "\<not> r1 < 1 / 5" "\<not> r1 < 2 / 5" "\<not> r1 < 3 / 5" "\<not> r1 < 4 / 5"
    by blast
  then show ?thesis
  proof cases
    case s0
    then have "segment5 r2 = 0" using assms(5) segment5_iff(1) [of r1] by simp
    then have t: "r2 < 1 / 5" using segment5_iff(1) [of r2] by blast
    show ?thesis unfolding c1 c2 if_P [OF s0] if_P [OF t] by (rule one_channel_changed)
  next
    case s1
    then have "segment5 r1 = 1" using segment5_iff(2) [of r1] by blast
    then have "segment5 r2 = 1" using assms(5) by simp
    then have t: "\<not> r2 < 1 / 5" "r2 < 2 / 5" using segment5_iff(2) [of r2] by blast+
    show ?thesis
      unfolding c1 c2 if_not_P [OF s1(1)] if_P [OF s1(2)] if_not_P [OF t(1)] if_P [OF t(2)]
      by (rule one_channel_changed)
  next
    case s2
    then have "segment5 r1 = 2" using segment5_iff(3) [of r1] by blast
    then have "segment5 r2 = 2" using assms(5) by simp
    then have u: "\<not> r2 < 2 / 5" "r2 < 3 / 5" using segment5_iff(3) [of r2] by blast+
    then have t: "\<not> r2 < 1 / 5" by linarith
    show ?thesis
      unfolding c1 c2 if_not_P [OF s2(1)] if_not_P [OF s2(2)] if_P [OF s2(3)]
        if_not_P [OF t] if_not_P [OF u(1)] if_P [OF u(2)]
      by (rule one_channel_changed)
  next
    case s3
    then have "segment5 r1 = 3" using segment5_iff(4) [of r1] by blast
    then have "segment5 r2 = 3" using assms(5) by simp
    then have u: "\<not> r2 < 3 / 5" "r2 < 4 / 5" using segment5_iff(4) [of r2] by blast+
    then have t: "\<not> r2 < 1 / 5" "\<not> r2 < 2 / 5" by linarith+
    show ?thesis
      unfolding c1 c2 if_not_P [OF s3(1)] if_not_P [OF s3(2)] if_not_P [OF s3(3)] if_P [OF s3(4)]
        if_not_P [OF t(1)] if_not_P [OF t(2)] if_not_P [OF u(1)] if_P [OF u(2)]
      by (rule one_channel_changed)
  next
    case s4
    then have "segment5 r1 = 4" using segment5_iff(5) [of r1] by blast
    then have "segment5 r2 = 4" using assms(5) by simp
    then have u: "\<not> r2 < 4 / 5" using segment5_iff(5) [of r2] by blast
    then have t: "\<not> r2 < 1 / 5" "\<not> r2 < 2 / 5" "\<not> r2 < 3 / 5" by linarith+
    show ?thesis
      unfolding c1 c2 if_not_P [OF s4(1)] if_not_P [OF s4(2)] if_not_P [OF s4(3)] if_not_P [OF s4(4)]
        if_not_P [OF t(1)] if_not_P [OF t(2)] if_not_P [OF t(3)] if_not_P [OF u]
      by (rule one_channel_changed)
  qed
qed

text \<open>The segments of the two mappings, each ramp met to within one unit.\<close>

lemma getColor_segments:
  assumes "0 \<le> r" and "r \<le> 1"
  shows "(case rgb_of (getColor (Fin r) (Fin 1)) of (R, G, B) \<Rightarrow>
            if r < 1 / 5 then
              R = Fin 0 \<and> chan_close G (Fin (of_int \<lfloor>1275 * r\<rfloor>)) \<and> B = Fin 255
            else if r < 2 / 5 then
              R = Fin 0 \<and> G = Fin 255 \<and> chan_close B (Fin (of_int \<lfloor>510 - 1275 * r\<rfloor>))
            else if r < 3 / 5 then
              chan_close R (Fin (of_int \<lfloor>1275 * r - 510\<rfloor>)) \<and> G = Fin 255 \<and> B = Fin 0
            else if r < 4 / 5 then
              R = Fin 255 \<and> chan_close G (Fin (of_int \<lfloor>1020 - 1275 * r\<rfloor>)) \<and> B = Fin 0
            else
              R = Fin 255 \<and> G = Fin 0 \<and> chan_close B (Fin (of_int \<lfloor>1275 * r - 1020\<rfloor>)))"
  unfolding getColor_ratio [OF assms] by simp

lemma valueToColor_segments:
  assumes "0 \<le> u" and "u \<le> 255"
  shows "(case valueToColor (Fin u) of (R, G, B) \<Rightarrow>
            if u < 85 then
              R = Fin 0 \<and> chan_close G (Fin (of_int \<lfloor>u * 3\<rfloor>)) \<and> B = Fin 255
            else if u < 170 then
              chan_close R (Fin (of_int \<lfloor>(u - 85) * 3\<rfloor>)) \<and> G = Fin 255
              \<and> chan_close B (Fin (255 - of_int \<lfloor>(u - 85) * 3\<rfloor>))
            else
              R = Fin 255 \<and> chan_close G (Fin (255 - of_int \<lfloor>(u - 170) * 3\<rfloor>)) \<and> B = Fin 0)"
  unfolding valueToColor_value [OF assms] by simp

text \<open>
  C4 (as amended). \<^verbatim>\<open>getColor\<close> (main.ts and the simulated analyzer) maps every ratio
  \<open>r1\<close> in \<open>[0, 1]\<close> through five segments with breakpoints 0.2, 0.4, 0.6, 0.8: in each
  segment two channels are constant (0 or 255) and the third is, to within one unit,
  the floor of a linear ramp of slope 1275 or -1275; so two ratios of one segment differ
  in at most one channel; and at each of the four breakpoints it is continuous: a ratio
  within 1/1275 of the breakpoint gets a colour at most one unit away from the
  breakpoint's in every channel. \<^verbatim>\<open>valueToColor\<close> of Spectrogram.vue is another mapping:
  for every value \<open>u\<close> of the scale 0 to 255 it has three segments with breakpoints 85
  and 170, the first ramping green up, the middle one ramping red up and blue down
  together, the last ramping green down, each ramp of slope 3 and met to within one unit;
  it is continuous too, within one unit per channel for a value within 1/3 of a
  breakpoint. (The model computes in real numbers, where each ramping channel is the
  floor itself; the unit of tolerance is what the rounding of doubles can move it by.)
\<close>

theorem color_mapping_segments_continuous:
  assumes "bd \<in> {1 / 5, 2 / 5, 3 / 5, 4 / 5}" and "\<bar>r - bd\<bar> \<le> 1 / 1275"
    and "0 \<le> r1" and "r1 \<le> 1" and "0 \<le> r2" and "r2 \<le> 1" and "segment5 r1 = segment5 r2"
    and "vb \<in> {85, 170}" and "\<bar>v - vb\<bar> \<le> 1 / 3"
    and "0 \<le> u" and "u \<le> 255"
  shows "(case rgb_of (getColor (Fin r1) (Fin 1)) of (R, G, B) \<Rightarrow>
            if r1 < 1 / 5 then
              R = Fin 0 \<and> chan_close G (Fin (of_int \<lfloor>1275 * r1\<rfloor>)) \<and> B = Fin 255
            else if r1 < 2 / 5 then
              R = Fin 0 \<and> G = Fin 255 \<and> chan_close B (Fin (of_int \<lfloor>510 - 1275 * r1\<rfloor>))
            else if r1 < 3 / 5 then
              chan_close R (Fin (of_int \<lfloor>1275 * r1 - 510\<rfloor>)) \<and> G = Fin 255 \<and> B = Fin 0
            else if r1 < 4 / 5 then
              R = Fin 255 \<and> chan_close G (Fin (of_int \<lfloor>1020 - 1275 * r1\<rfloor>)) \<and> B = Fin 0
            else
              R = Fin 255 \<and> G = Fin 0 \<and> chan_close B (Fin (of_int \<lfloor>1275 * r1 - 1020\<rfloor>)))
       \<and> channels_changed (rgb_of (getColor (Fin r1) (Fin 1)))
             (rgb_of (getColor (Fin r2) (Fin 1))) \<le> 1
       \<and> rgb_close (rgb_of (getColor (Fin r) (Fin 1))) (rgb_of (getColor (Fin bd) (Fin 1)))
       \<and> (case valueToColor (Fin u) of (R, G, B) \<Rightarrow>
            if u < 85 then
              R = Fin 0 \<and> chan_close G (Fin (of_int \<lfloor>u * 3\<rfloor>)) \<and> B = Fin 255
            else if u < 170 then
              chan_close R (Fin (of_int \<lfloor>(u - 85) * 3\<rfloor>)) \<and> G = Fin 255
              \<and> chan_close B (Fin (255 - of_int \<lfloor>(u - 85) * 3\<rfloor>))
            else
              R = Fin 255 \<and> chan_close G (Fin (255 - of_int \<lfloor>(u - 170) * 3\<rfloor>)) \<and> B = Fin 0)
       \<and> rgb_close (valueToColor (Fin v)) (valueToColor (Fin vb))"
proof -
  have a: "rgb_close (rgb_of (getColor (Fin r) (Fin 1))) (rgb_of (getColor (Fin bd) (Fin 1)))"
    using assms(1,2) getColor_continuous_1 [of r] getColor_continuous_2 [of r]
      getColor_continuous_3 [of r] getColor_continuous_4 [of r]
    by blast
  have b: "rgb_close (valueToColor (Fin v)) (valueToColor (Fin vb))"
    using assms(8,9) valueToColor_continuous_85 [of v] valueToColor_continuous_170 [of v]
    by blast
  from getColor_segments [OF assms(3,4)] getColor_one_ramp [OF assms(3-7)] a
    valueToColor_segments [OF assms(10,11)] b
  show ?thesis by (intro conjI)
qed

theorem color_mapping_segments_continuous_witness:
  "rgb_of (getColor (Fin (1995 / 10000)) (Fin 1)) = (Fin 0, Fin 254, Fin 255)
   \<and> rgb_of (getColor (Fin (1 / 5)) (Fin 1)) = (Fin 0, Fin 255, Fin 255)
   \<and> rgb_close (rgb_of (getColor (Fin (1995 / 10000)) (Fin 1)))
        (rgb_of (getColor (Fin (1 / 5)) (Fin 1)))
   \<and> channels_changed (rgb_of (getColor (Fin (45 / 100)) (Fin 1)))
        (rgb_of (getColor (Fin (55 / 100)) (Fin 1))) \<le> 1
   \<and> rgb_close (valueToColor (Fin (1698 / 10))) (valueToColor (Fin 170))
   \<and> (case rgb_of (getColor (Fin (45 / 100)) (Fin 1)) of (R, G, B) \<Rightarrow>
         chan_close R (Fin 63) \<and> G = Fin 255 \<and> B = Fin 0)
   \<and> (case valueToColor (Fin 30) of (R, G, B) \<Rightarrow>
         R = Fin 0 \<and> chan_close G (Fin 90) \<and> B = Fin 255)"
proof -
  have h1: "(1 / 5 :: real) \<in> {1 / 5, 2 / 5, 3 / 5, 4 / 5}" by simp
  have h2: "\<bar>1995 / 10000 - 1 / 5\<bar> \<le> (1 / 1275 :: real)" by simp
  have h3: "(0::real) \<le> 45 / 100" "(45 / 100 :: real) \<le> 1"
    "(0::real) \<le> 55 / 100" "(55 / 100 :: real) \<le> 1" by simp_all
  have h4: "segment5 (45 / 100) = segment5 (55 / 100)" by (simp add: segment5_def)
  have h5: "(170::real) \<in> {85, 170}" by simp
  have h6: "\<bar>1698 / 10 - 170\<bar> \<le> (1 / 3 :: real)" by simp
  have h7: "(0::real) \<le> 30" "(30::real) \<le> 255" by simp_all
  have e1: "rgb_of (getColor (Fin (1995 / 10000)) (Fin 1)) = (Fin 0, Fin 254, Fin 255)"
    by (simp add: getColor_ratio)
  have e2: "rgb_of (getColor (Fin (1 / 5)) (Fin 1)) = (Fin 0, Fin 255, Fin 255)"
    by (simp add: getColor_ratio)
  have f1: "\<lfloor>1275 * (45 / 100) - 510 :: real\<rfloor> = 63" by simp
  have f2: "\<lfloor>30 * 3 :: real\<rfloor> = 90" by simp
  from color_mapping_segments_continuous [OF h1 h2 h3 h4 h5 h6 h7] e1 e2
  show ?thesis by (simp add: f1)
qed

text \<open>
  C4 (as stated) fails for the spectrogram's per-pixel colour function: the values 110
  and 140 (ratios 0.43 and 0.55, in the same one of the five segments) get colours that
  differ in two channels, red and blue.
\<close>

theorem valueToColor_two_channels_ramp:
  "segment5 (110 / 255) = segment5 (140 / 255)
   \<and> valueToColor (Fin 110) = (Fin 75, Fin 255, Fin 180)
   \<and> valueToColor (Fin 140) = (Fin 165, Fin 255, Fin 90)
   \<and> channels_changed (valueToColor (Fin 110)) (valueToColor (Fin 140)) = 2"
  by (simp add: valueToColor_value segment5_def)

end
